theory Spec2Isabelle
  imports
    Complex_Main
    "HOL-Library.Multiset"
    "HOL-Library.Char_ord"
    "HOL-Library.List_Lexorder"
    "HOL-Library.Sublist"
    "HOL-Library.AList"
begin

section \<open>The book's table of contents\<close>

text \<open>
  The table of contents of the book is a YAML document: a format, a root page and a list
  of parts; a part has a caption and chapters; a chapter is a file with an optional list
  of sections, each a file. The value \<open>book_toc\<close> is that document, entry by entry.
\<close>

datatype toc_chapter = Chapter (chapter_file: string) (sections: "string list")

record part =
  caption :: string
  chapters :: "toc_chapter list"

record toc =
  toc_format :: string
  toc_root :: string
  parts :: "part list"

definition book_toc :: toc where
  "book_toc = \<lparr>
     toc_format = ''jb-book'',
     toc_root = ''README'',
     parts = [
       \<lparr>caption = ''Introductions + Overview'',
        chapters = [
          Chapter ''introductions/getting-started'' [],
          Chapter ''introductions/open-science'' [],
          Chapter ''introductions/open-radar'' []]\<rparr>,
       \<lparr>caption = ''Tool Foundations'',
        chapters = [
          Chapter ''pyart/README.md'' [
            ''notebooks/pyart/pyart-basics'',
            ''notebooks/pyart/pyart-gridding'',
            ''notebooks/pyart/exercice1_swiss_thunderstorm'',
            ''notebooks/pyart/exercice2_swiss_doppler'',
            ''notebooks/pyart/question_pyart_meteoswiss'',
            ''notebooks/pyart/answer_question_pyart_meteoswiss''],
          Chapter ''wradlib/README.md'' [
            ''notebooks/wradlib/wradlib_intro'',
            ''notebooks/wradlib/wradlib_radar_data_io_vis'',
            ''notebooks/wradlib/wradlib_data_quality'',
            ''notebooks/wradlib/wradlib_differential_phase'',
            ''notebooks/wradlib/wradlib_quasi_vertical_profiles''],
          Chapter ''baltrad/README.md'' [
            ''notebooks/baltrad_short_course/BALTRAD Compositing'',
            ''notebooks/baltrad_short_course/BALTRAD DRQC'',
            ''notebooks/baltrad_short_course/BALTRAD IO'',
            ''notebooks/baltrad_short_course/BALTRAD parallel processing'',
            ''notebooks/baltrad_short_course/BALTRAD QC''],
          Chapter ''lrose/README.md'' [
            ''notebooks/lrose/nexrad_mosaic.erad_tutorial.ipynb''],
          Chapter ''notebooks/environment'' []]\<rparr>,
       \<lparr>caption = ''Open Radar Workflows'',
        chapters = [
          Chapter ''workflows/README.md'' [
            ''notebooks/baltrad2wradlib/baltrad2wradlib'',
            ''notebooks/pyart2baltrad/baltrad_pyart_rain_rate_example'',
            ''notebooks/pyart2baltrad/pyart_baltrad_dealias_example'']]\<rparr>,
       \<lparr>caption = ''Becoming a developer'',
        chapters = [
          Chapter ''package-development/README.md'' []]\<rparr>]\<rparr>"

text \<open>Every \<open>file:\<close> entry of a chapter: the chapter's own file, then its sections.\<close>

definition chapter_files :: "toc_chapter \<Rightarrow> string list" where
  "chapter_files c = chapter_file c # sections c"

definition all_chapters :: "toc \<Rightarrow> toc_chapter list" where
  "all_chapters t = concat (map chapters (parts t))"

definition toc_files :: "toc \<Rightarrow> string list" where
  "toc_files t = concat (map chapter_files (all_chapters t))"

section \<open>Exceptions\<close>

text \<open>
  A Python exception is a value: a computation that may raise returns \<open>exn + 'a\<close>, with
  \<open>Inl\<close> the exception. \<open>LibraryError\<close> stands for whatever a library call raises by
  itself (an unreadable file, a missing tile), tagged by a message.
\<close>

datatype exn =
    ValueError
  | IndexError
  | KeyError
  | AttributeError
  | TypeError
  | LibraryError string

fun mapM :: "('a \<Rightarrow> exn + 'b) \<Rightarrow> 'a list \<Rightarrow> exn + 'b list" where
  "mapM f [] = Inr []"
| "mapM f (x # xs) =
     (case f x of
        Inl e \<Rightarrow> Inl e
      | Inr y \<Rightarrow> (case mapM f xs of Inl e \<Rightarrow> Inl e | Inr ys \<Rightarrow> Inr (y # ys)))"

section \<open>Labelled arrays and sweep datasets\<close>

text \<open>
  The arrays the notebook handles are the libraries' labelled arrays. A \<open>DataArray\<close> has
  named dimensions with their sizes, in order, and an element at every position; a
  position gives, for each dimension name, the index along it.
\<close>

type_synonym index = "string \<Rightarrow> nat"

record 'a DataArray =
  sizes :: "(string \<times> nat) list"
  value_at :: "index \<Rightarrow> 'a"

definition dims :: "'a DataArray \<Rightarrow> string list" where
  "dims da = map fst (sizes da)"

definition size_of :: "'a DataArray \<Rightarrow> string \<Rightarrow> nat" where
  "size_of da d = (case map_of (sizes da) d of Some n \<Rightarrow> n | None \<Rightarrow> 0)"

text \<open>All positions of an array of the given dimensions, the last dimension running fastest.\<close>

fun indices :: "(string \<times> nat) list \<Rightarrow> index list" where
  "indices [] = [\<lambda>_. 0]"
| "indices ((d, n) # ds) =
     concat (map (\<lambda>i. map (\<lambda>ix. ix(d := i)) (indices ds)) [0..<n])"

definition values_of :: "'a DataArray \<Rightarrow> 'a list" where
  "values_of da = map (value_at da) (indices (sizes da))"

text \<open>
  A floating-point value: not-a-number, the two infinities, or a finite number. Every
  comparison with \<open>NaN\<close> is false.
\<close>

datatype fval = NaN | NInf | Fin rat | PInf

fun flt :: "fval \<Rightarrow> fval \<Rightarrow> bool" where
  "flt NaN _ = False"
| "flt _ NaN = False"
| "flt _ NInf = False"
| "flt NInf _ = True"
| "flt PInf _ = False"
| "flt (Fin a) (Fin b) = (a < b)"
| "flt (Fin a) PInf = True"

fun fle :: "fval \<Rightarrow> fval \<Rightarrow> bool" where
  "fle NaN _ = False"
| "fle _ NaN = False"
| "fle NInf _ = True"
| "fle _ PInf = True"
| "fle PInf _ = False"
| "fle (Fin a) (Fin b) = (a \<le> b)"
| "fle (Fin a) NInf = False"

text \<open>
  An element of a data variable is a boolean (the clutter map) or a float. In a
  comparison with a float a boolean counts as 1.0 or 0.0.
\<close>

datatype val = Bool bool | Float fval

fun to_float :: "val \<Rightarrow> fval" where
  "to_float (Bool b) = Fin (if b then 1 else 0)"
| "to_float (Float x) = x"

text \<open>
  A time stamp is a count since the epoch or not-a-time. Every comparison with \<open>NaT\<close>
  is false, and the minimum of an array that holds a \<open>NaT\<close> is \<open>NaT\<close>.
\<close>

datatype dt64 = NaT | Stamp int

fun dt_lt :: "dt64 \<Rightarrow> dt64 \<Rightarrow> bool" where
  "dt_lt (Stamp a) (Stamp b) = (a < b)"
| "dt_lt _ _ = False"

fun dt_le :: "dt64 \<Rightarrow> dt64 \<Rightarrow> bool" where
  "dt_le (Stamp a) (Stamp b) = (a \<le> b)"
| "dt_le _ _ = False"

fun dt_min :: "dt64 \<Rightarrow> dt64 \<Rightarrow> dt64" where
  "dt_min (Stamp a) (Stamp b) = Stamp (min a b)"
| "dt_min _ _ = NaT"

text \<open>
  A sweep is a dataset: a \<open>time\<close> coordinate and named data variables, in insertion
  order. The time coordinate of a sweep as it is read holds time stamps; \<open>assign\<close> under
  its name replaces it by an array of numbers.
\<close>

datatype tcoord = Times "dt64 DataArray" | Numbers "val DataArray"

record Dataset =
  time :: "tcoord option"
  data_vars :: "(string \<times> val DataArray) list"

definition getattr :: "Dataset \<Rightarrow> string \<Rightarrow> exn + val DataArray" where
  "getattr ds name =
     (case map_of (data_vars ds) name of None \<Rightarrow> Inl AttributeError | Some v \<Rightarrow> Inr v)"

text \<open>
  \<open>x.time.min()\<close>: \<open>x.time\<close> is the time coordinate, or else a data variable of that
  name. Reducing an empty array raises. The minimum of time stamps is the least one, or
  \<open>NaT\<close>; the minimum of numbers skips not-a-number, and is not-a-number when there
  is nothing else.
\<close>

datatype key = TimeKey dt64 | NumKey fval

definition da_min :: "dt64 DataArray \<Rightarrow> exn + dt64" where
  "da_min da =
     (case values_of da of [] \<Rightarrow> Inl ValueError | v # vs \<Rightarrow> Inr (fold dt_min vs v))"

definition fmin :: "fval \<Rightarrow> fval \<Rightarrow> fval" where
  "fmin a b = (if flt b a then b else a)"

definition num_min :: "val DataArray \<Rightarrow> exn + fval" where
  "num_min da =
     (case values_of da of
        [] \<Rightarrow> Inl ValueError
      | v # vs \<Rightarrow>
          (case filter (\<lambda>x. x \<noteq> NaN) (map to_float (v # vs)) of
             [] \<Rightarrow> Inr NaN
           | y # ys \<Rightarrow> Inr (fold fmin ys y)))"

definition time_min :: "Dataset \<Rightarrow> exn + key" where
  "time_min x =
     (case time x of
        Some (Times t) \<Rightarrow> (case da_min t of Inl e \<Rightarrow> Inl e | Inr k \<Rightarrow> Inr (TimeKey k))
      | Some (Numbers v) \<Rightarrow> (case num_min v of Inl e \<Rightarrow> Inl e | Inr k \<Rightarrow> Inr (NumKey k))
      | None \<Rightarrow>
          (case map_of (data_vars x) ''time'' of
             None \<Rightarrow> Inl AttributeError
           | Some v \<Rightarrow> (case num_min v of Inl e \<Rightarrow> Inl e | Inr k \<Rightarrow> Inr (NumKey k))))"

section \<open>Reading the radar volume\<close>

text \<open>
  Paths are POSIX paths. \<open>dirname\<close> is the path up to its last slash, without trailing
  slashes unless it has nothing else; \<open>basename\<close> is what follows the last slash;
  \<open>path_join\<close> puts a relative name behind a directory.
\<close>

definition dirname :: "string \<Rightarrow> string" where
  "dirname p =
     (let rhead = dropWhile (\<lambda>c. c \<noteq> CHR ''/'') (rev p)
      in if rhead \<noteq> [] \<and> \<not> list_all (\<lambda>c. c = CHR ''/'') rhead
         then rev (dropWhile (\<lambda>c. c = CHR ''/'') rhead) else rev rhead)"

definition basename :: "string \<Rightarrow> string" where
  "basename p = rev (takeWhile (\<lambda>c. c \<noteq> CHR ''/'') (rev p))"

definition path_join :: "string \<Rightarrow> string \<Rightarrow> string" where
  "path_join a b =
     (if b \<noteq> [] \<and> hd b = CHR ''/'' then b
      else if a = [] \<or> last a = CHR ''/'' then a @ b
      else a @ ''/'' @ b)"

text \<open>
  \<open>glob.glob\<close> on a pattern whose only wildcards are in the last component: the names of
  the pattern's directory that match, each joined to the directory as written.
  \<open>listdir\<close> is the file system: the names in a directory, or nothing when it is not
  there. A name matches as in \<open>fnmatch\<close>: \<open>*\<close> stands for any characters, \<open>?\<close> for
  one (the notebook's pattern has no bracket expression); a name that starts with a dot
  only matches a pattern that does.
\<close>

fun fnmatch :: "string \<Rightarrow> string \<Rightarrow> bool" where
  "fnmatch [] [] = True"
| "fnmatch [] (p # ps) = (p = CHR ''*'' \<and> fnmatch [] ps)"
| "fnmatch (c # cs) [] = False"
| "fnmatch (c # cs) (p # ps) =
     (if p = CHR ''*'' then fnmatch (c # cs) ps \<or> fnmatch cs (p # ps)
      else if p = CHR ''?'' then fnmatch cs ps
      else c = p \<and> fnmatch cs ps)"

definition ishidden :: "string \<Rightarrow> bool" where
  "ishidden n = (case n of [] \<Rightarrow> False | c # _ \<Rightarrow> c = CHR ''.'')"

definition glob :: "(string \<Rightarrow> string list option) \<Rightarrow> string \<Rightarrow> string list" where
  "glob listdir pat =
     (case listdir (dirname pat) of
        None \<Rightarrow> []
      | Some names \<Rightarrow>
          map (path_join (dirname pat))
            (filter (\<lambda>n. fnmatch n (basename pat))
               (filter (\<lambda>n. ishidden (basename pat) \<or> \<not> ishidden n) names)))"

text \<open>No name in a directory has a slash.\<close>

definition plain_names :: "(string \<Rightarrow> string list option) \<Rightarrow> string \<Rightarrow> bool" where
  "plain_names listdir d =
     (case listdir d of None \<Rightarrow> True | Some names \<Rightarrow> list_all (\<lambda>n. CHR ''/'' \<notin> set n) names)"

definition fglob :: string where
  "fglob = ''../pyart/data/example_pyrad/22179/MLL22179/MLL2217907250U*.nc''"

text \<open>
  The library calls are parameters of the model, each returning a value or raising:
  \<open>open_dataset\<close> reads one file (with the group and engine asked for),
  \<open>filter_gabella\<close> is the clutter filter on a plain array, \<open>georeference_dataset\<close>
  adds the geographic coordinates, \<open>get_srtm\<close> fetches the elevation tiles of an
  extent, reading the process environment, and the last four read the elevation model:
  its values, its coordinates, both with its projection, and the indices of a bounding
  box.
\<close>

record 'a ndarray =
  shape :: "nat list"
  item :: "nat list \<Rightarrow> 'a"

text \<open>A labelled array together with named coordinate arrays.\<close>

record 'a coord_array =
  data :: "'a DataArray"
  coords :: "(string \<times> 'a DataArray) list"

record gabella_kwargs =
  wsize :: int
  thrsnorain :: rat
  tr1 :: rat
  n_p :: int
  tr2 :: rat
  rm_nans :: bool

type_synonym environ = "string \<rightharpoonup> string"

record 'dem lib =
  open_dataset :: "string \<Rightarrow> string \<Rightarrow> string \<Rightarrow> exn + Dataset"
  filter_gabella :: "gabella_kwargs \<Rightarrow> val ndarray \<Rightarrow> exn + val ndarray"
  georeference_dataset :: "Dataset \<Rightarrow> exn + Dataset"
  get_srtm :: "environ \<Rightarrow> rat list \<Rightarrow> exn + 'dem"
  read_gdal_values :: "'dem \<Rightarrow> exn + val ndarray"
  read_gdal_coordinates :: "'dem \<Rightarrow> exn + val ndarray"
  extract_raster_dataset :: "'dem \<Rightarrow> rat \<Rightarrow> exn + val ndarray \<times> val ndarray \<times> string"
  find_bbox_indices :: "val ndarray \<Rightarrow> rat \<times> rat \<times> rat \<times> rat \<Rightarrow> exn + int list"

text \<open>
  \<^verbatim>\<open>flist = glob.glob(fglob); flist.sort()\<close>
\<close>

definition read_flist :: "(string \<Rightarrow> string list option) \<Rightarrow> string list" where
  "read_flist listdir = sort (glob listdir fglob)"

text \<open>
  \<^verbatim>\<open>ds = [xr.open_dataset(f, group="sweep_1", engine="cfradial1", chunks={}) for f in flist]\<close>
\<close>

definition open_sweeps :: "'dem lib \<Rightarrow> string list \<Rightarrow> exn + Dataset list" where
  "open_sweeps l flist = mapM (\<lambda>f. open_dataset l f ''sweep_1'' ''cfradial1'') flist"

text \<open>
  A radar volume is a mutable sequence over a list: a new one is empty, \<open>extend\<close> appends
  each item, \<open>sort\<close> sorts the list in place.

  Python's sort with a key computes every key first (a key that raises ends the sort)
  and then sorts on the keys, using only \<open><\<close>. The sort is the interpreter's for a
  list of fewer than 64 items: the longest run at the front that does not descend, or
  that strictly descends and is then reversed, followed by the remaining items, each
  put into place by a binary search. On keys that are totally ordered every stable sort
  gives this list, whatever the length. A time stamp and a number cannot be compared:
  with keys of both kinds the sort raises.
\<close>

fun asc_run :: "('a \<Rightarrow> 'a \<Rightarrow> bool) \<Rightarrow> 'a \<Rightarrow> 'a list \<Rightarrow> nat" where
  "asc_run lt x [] = 0"
| "asc_run lt x (y # ys) = (if lt y x then 0 else Suc (asc_run lt y ys))"

fun desc_run :: "('a \<Rightarrow> 'a \<Rightarrow> bool) \<Rightarrow> 'a \<Rightarrow> 'a list \<Rightarrow> nat" where
  "desc_run lt x [] = 0"
| "desc_run lt x (y # ys) = (if lt y x then Suc (desc_run lt y ys) else 0)"

function bisect :: "('a \<Rightarrow> 'a \<Rightarrow> bool) \<Rightarrow> 'a \<Rightarrow> 'a list \<Rightarrow> nat \<Rightarrow> nat \<Rightarrow> nat" where
  "bisect lt pivot xs l r =
     (if l < r then
        (let p = l + (r - l) div 2
         in if lt pivot (xs ! p) then bisect lt pivot xs l p
            else bisect lt pivot xs (Suc p) r)
      else l)"
  by pat_completeness auto
termination
  by (relation "measure (\<lambda>(lt, pivot, xs, l, r). r - l)") auto

declare bisect.simps [simp del]

definition binary_insert :: "('a \<Rightarrow> 'a \<Rightarrow> bool) \<Rightarrow> 'a \<Rightarrow> 'a list \<Rightarrow> 'a list" where
  "binary_insert lt pivot xs =
     (let k = bisect lt pivot xs 0 (length xs) in take k xs @ pivot # drop k xs)"

fun list_sort :: "('a \<Rightarrow> 'a \<Rightarrow> bool) \<Rightarrow> 'a list \<Rightarrow> 'a list" where
  "list_sort lt [] = []"
| "list_sort lt [x] = [x]"
| "list_sort lt (x # y # zs) =
     (if lt y x
      then (let n = desc_run lt y zs
            in fold (binary_insert lt) (drop n zs) (rev (x # y # take n zs)))
      else (let n = asc_run lt y zs
            in fold (binary_insert lt) (drop n zs) (x # y # take n zs)))"

fun key_lt :: "key \<Rightarrow> key \<Rightarrow> bool" where
  "key_lt (TimeKey a) (TimeKey b) = dt_lt a b"
| "key_lt (NumKey a) (NumKey b) = flt a b"
| "key_lt _ _ = False"

fun is_time_key :: "key \<Rightarrow> bool" where
  "is_time_key (TimeKey _) = True"
| "is_time_key (NumKey _) = False"

definition sort_with_key :: "('a \<Rightarrow> exn + key) \<Rightarrow> 'a list \<Rightarrow> exn + 'a list" where
  "sort_with_key keyfunc xs =
     (case mapM keyfunc xs of
        Inl e \<Rightarrow> Inl e
      | Inr ks \<Rightarrow>
          if list_ex is_time_key ks \<and> list_ex (\<lambda>k. \<not> is_time_key k) ks then Inl TypeError
          else Inr (map snd (list_sort (\<lambda>a b. key_lt (fst a) (fst b)) (zip ks xs))))"

text \<open>
  The time stamps of a sweep are valid when it has a time coordinate of time stamps
  without \<open>NaT\<close>; \<open>k\<close> is its least time stamp when it is one of them and none is
  earlier.
\<close>

definition valid_times :: "Dataset \<Rightarrow> bool" where
  "valid_times d =
     (case time d of Some (Times t) \<Rightarrow> NaT \<notin> set (values_of t) | _ \<Rightarrow> False)"

definition least_stamp :: "Dataset \<Rightarrow> int \<Rightarrow> bool" where
  "least_stamp d k =
     (case time d of
        Some (Times t) \<Rightarrow>
          Stamp k \<in> set (values_of t) \<and> list_all (\<lambda>v. dt_le (Stamp k) v) (values_of t)
      | _ \<Rightarrow> False)"

type_synonym RadarVolume = "Dataset list"

definition RadarVolume_new :: RadarVolume where
  "RadarVolume_new = []"

definition extend :: "RadarVolume \<Rightarrow> Dataset list \<Rightarrow> RadarVolume" where
  "extend vol ds = vol @ ds"

text \<open>
  \<^verbatim>\<open>vol = wrl.io.RadarVolume(engine="cfradial1"); vol.extend(ds)\<close>
  \<^verbatim>\<open>vol.sort(key=lambda x: x.time.min())\<close>
\<close>

definition make_volume :: "Dataset list \<Rightarrow> exn + RadarVolume" where
  "make_volume ds = sort_with_key time_min (extend RadarVolume_new ds)"

definition read_volume :: "'dem lib \<Rightarrow> (string \<Rightarrow> string list option) \<Rightarrow> exn + RadarVolume" where
  "read_volume l listdir =
     (case open_sweeps l (read_flist listdir) of
        Inl e \<Rightarrow> Inl e
      | Inr ds \<Rightarrow> make_volume ds)"

text \<open>\<open>vol[i]\<close>: list indexing, a negative index counting from the end.\<close>

definition getitem :: "'a list \<Rightarrow> int \<Rightarrow> exn + 'a" where
  "getitem xs i =
     (if 0 \<le> i then (if i < int (length xs) then Inr (xs ! nat i) else Inl IndexError)
      else (if - i \<le> int (length xs) then Inr (xs ! nat (int (length xs) + i))
            else Inl IndexError))"

definition sweep_number :: int where
  "sweep_number = 3"

section \<open>Clutter detection\<close>

text \<open>
  The dimensions of a dataset are collected from its variables, one after the other; a
  dimension met again with another size is an error.
\<close>

fun add_sizes :: "(string \<times> nat) list \<Rightarrow> (string \<times> nat) list \<Rightarrow> exn + (string \<times> nat) list" where
  "add_sizes acc [] = Inr acc"
| "add_sizes acc ((d, n) # rest) =
     (case map_of acc d of
        None \<Rightarrow> add_sizes (acc @ [(d, n)]) rest
      | Some m \<Rightarrow> if m = n then add_sizes acc rest else Inl ValueError)"

definition var_sizes :: "Dataset \<Rightarrow> (string \<times> nat) list list" where
  "var_sizes ds =
     (case time ds of
        None \<Rightarrow> []
      | Some (Times t) \<Rightarrow> [sizes t]
      | Some (Numbers v) \<Rightarrow> [sizes v])
     @ map (\<lambda>(name, v). sizes v) (data_vars ds)"

definition calculate_dimensions :: "Dataset \<Rightarrow> exn + (string \<times> nat) list" where
  "calculate_dimensions ds = add_sizes [] (concat (var_sizes ds))"

text \<open>
  \<open>ds.assign({name: v})\<close> returns a new dataset with the variable set: under the name
  of the time coordinate it replaces the coordinate, else it is a data variable
  (replaced where it was, added last otherwise). It raises when the sizes of the
  dataset's arrays conflict.
\<close>

definition assign :: "Dataset \<Rightarrow> string \<Rightarrow> val DataArray \<Rightarrow> exn + Dataset" where
  "assign ds name v =
     (let ds' = (if name = ''time'' \<and> time ds \<noteq> None then ds\<lparr>time := Some (Numbers v)\<rparr>
                 else ds\<lparr>data_vars := AList.update name v (data_vars ds)\<rparr>)
      in case calculate_dimensions ds' of Inl e \<Rightarrow> Inl e | Inr _ \<Rightarrow> Inr ds')"

text \<open>
  \<open>apply_ufunc\<close> with one input, its core dimensions and the output's: the input must
  have the core dimensions; the function gets the plain array with the other (loop)
  dimensions first and the core dimensions last; its result must have one axis for each
  loop and output core dimension, and may not change the size of a dimension of the
  input. The result is labelled with the loop dimensions, then the output core
  dimensions. How the evaluation is scheduled (\<open>dask="parallelized"\<close>) does not change
  the values, and is not part of the model: on the notebook's lazy arrays the function
  runs when the values are first needed, the model runs it at once.
\<close>

definition index_from :: "string list \<Rightarrow> nat list \<Rightarrow> index" where
  "index_from order pos d = (case map_of (zip order pos) d of Some i \<Rightarrow> i | None \<Rightarrow> 0)"

definition to_ndarray :: "'a DataArray \<Rightarrow> string list \<Rightarrow> 'a ndarray" where
  "to_ndarray da order =
     \<lparr>shape = map (size_of da) order, item = \<lambda>pos. value_at da (index_from order pos)\<rparr>"

definition from_ndarray :: "string list \<Rightarrow> 'a ndarray \<Rightarrow> exn + 'a DataArray" where
  "from_ndarray ds a =
     (if length ds \<noteq> length (shape a) then Inl ValueError
      else Inr \<lparr>sizes = zip ds (shape a), value_at = \<lambda>ix. item a (map ix ds)\<rparr>)"

definition size_changed :: "'a DataArray \<Rightarrow> (string \<times> nat) list \<Rightarrow> bool" where
  "size_changed da out = list_ex (\<lambda>(d, n). d \<in> set (dims da) \<and> size_of da d \<noteq> n) out"

definition apply_ufunc ::
  "('a ndarray \<Rightarrow> exn + 'b ndarray) \<Rightarrow> 'a DataArray \<Rightarrow> string list \<Rightarrow> string list
     \<Rightarrow> exn + 'b DataArray" where
  "apply_ufunc f da input_core_dims output_core_dims =
     (if list_ex (\<lambda>d. d \<notin> set (dims da)) input_core_dims then Inl ValueError
      else
        let loop_dims = filter (\<lambda>d. d \<notin> set input_core_dims) (dims da)
        in case f (to_ndarray da (loop_dims @ input_core_dims)) of
             Inl e \<Rightarrow> Inl e
           | Inr res \<Rightarrow>
               (case from_ndarray (loop_dims @ output_core_dims) res of
                  Inl e \<Rightarrow> Inl e
                | Inr out \<Rightarrow> if size_changed da (sizes out) then Inl ValueError else Inr out))"

text \<open>
  \<^verbatim>\<open>def extract_clutter(da, wsize=5, thrsnorain=0, tr1=6.0, n_p=6, tr2=1.3, rm_nans=False):\<close>
  \<^verbatim>\<open>    return xr.apply_ufunc(wrl.clutter.filter_gabella, da,\<close>
  \<^verbatim>\<open>        input_core_dims=[ ["azimuth", "range"] ], output_core_dims=[ ["azimuth", "range"] ],\<close>
  \<^verbatim>\<open>        dask="parallelized", kwargs=dict(wsize=wsize, ...))\<close>
\<close>

definition extract_clutter ::
  "'dem lib \<Rightarrow> val DataArray \<Rightarrow> int \<Rightarrow> rat \<Rightarrow> rat \<Rightarrow> int \<Rightarrow> rat \<Rightarrow> bool \<Rightarrow> exn + val DataArray" where
  "extract_clutter l da wsize' thrsnorain' tr1' n_p' tr2' rm_nans' =
     apply_ufunc
       (filter_gabella l
          \<lparr>wsize = wsize', thrsnorain = thrsnorain', tr1 = tr1', n_p = n_p', tr2 = tr2',
           rm_nans = rm_nans'\<rparr>)
       da [''azimuth'', ''range''] [''azimuth'', ''range'']"

text \<open>
  \<^verbatim>\<open>swp = vol[sweep_number]\<close>
  \<^verbatim>\<open>clmap = swp.reflectivity_hh_clut.pipe(extract_clutter, wsize=5, thrsnorain=0.0,\<close>
  \<^verbatim>\<open>    tr1=21.0, n_p=23, tr2=1.3, rm_nans=False)\<close>
  \<^verbatim>\<open>swp = swp.assign({"CMAP": clmap})\<close>
\<close>

definition clutter_map :: "'dem lib \<Rightarrow> Dataset \<Rightarrow> exn + val DataArray" where
  "clutter_map l swp =
     (case getattr swp ''reflectivity_hh_clut'' of
        Inl e \<Rightarrow> Inl e
      | Inr da \<Rightarrow> extract_clutter l da 5 0.0 21.0 23 1.3 False)"

definition calculate_clutter_map :: "'dem lib \<Rightarrow> RadarVolume \<Rightarrow> exn + Dataset" where
  "calculate_clutter_map l vol =
     (case getitem vol sweep_number of
        Inl e \<Rightarrow> Inl e
      | Inr swp \<Rightarrow>
          (case clutter_map l swp of
             Inl e \<Rightarrow> Inl e
           | Inr clmap \<Rightarrow> assign swp ''CMAP'' clmap))"

section \<open>Elevation tiles\<close>

text \<open>
  \<^verbatim>\<open>os.environ["WRADLIB_EARTHDATA_BEARER_TOKEN"] = ""\<close>
  \<^verbatim>\<open>os.environ["WRADLIB_DATA"] = "data/wradlib-data"\<close>
  \<^verbatim>\<open>dem = wrl.io.get_srtm(extent.values())\<close>
  The cell changes the environment, then calls the library; the changed environment
  stays whether the call returns or raises.
\<close>

definition wradlib_data :: string where
  "wradlib_data = ''data/wradlib-data''"

definition download_srtm :: "'dem lib \<Rightarrow> environ \<Rightarrow> rat list \<Rightarrow> environ \<times> (exn + 'dem)" where
  "download_srtm l env extent_values =
     (let env1 = env(''WRADLIB_EARTHDATA_BEARER_TOKEN'' \<mapsto> []);
          env2 = env1(''WRADLIB_DATA'' \<mapsto> wradlib_data)
      in (env2, get_srtm l env2 extent_values))"

section \<open>The elevation model\<close>

text \<open>
  \<^verbatim>\<open>elevation = wrl.georef.read_gdal_values(dem)\<close>
  \<^verbatim>\<open>coords = wrl.georef.read_gdal_coordinates(dem)\<close>
  \<^verbatim>\<open>elev = xr.DataArray(data=elevation, dims=["y", "x"],\<close>
  \<^verbatim>\<open>    coords={"lat": (["y", "x"], coords[..., 1]), "lon": (["y", "x"], coords[..., 0])})\<close>
  \<open>a[..., k]\<close> takes index \<open>k\<close> of the last axis. A new array gets its data and its
  coordinates labelled with the given dimensions; the numbers of dimensions must fit,
  a coordinate may only have dimensions of the data, and the sizes must agree.
\<close>

definition take_last :: "'a ndarray \<Rightarrow> nat \<Rightarrow> exn + 'a ndarray" where
  "take_last a k =
     (case rev (shape a) of
        [] \<Rightarrow> Inl IndexError
      | n # rest \<Rightarrow>
          if k < n then Inr \<lparr>shape = rev rest, item = \<lambda>pos. item a (pos @ [k])\<rparr>
          else Inl IndexError)"

definition new_DataArray ::
  "'a ndarray \<Rightarrow> string list \<Rightarrow> (string \<times> string list \<times> 'a ndarray) list
     \<Rightarrow> exn + 'a coord_array" where
  "new_DataArray a ds cs =
     (case from_ndarray ds a of
        Inl e \<Rightarrow> Inl e
      | Inr d \<Rightarrow>
          (case mapM (\<lambda>(name, cds, ca).
                        case from_ndarray cds ca of Inl e \<Rightarrow> Inl e | Inr c \<Rightarrow> Inr (name, c)) cs of
             Inl e \<Rightarrow> Inl e
           | Inr named \<Rightarrow>
               if list_ex (\<lambda>(name, c). \<not> set (dims c) \<subseteq> set (dims d)) named then Inl ValueError
               else (case add_sizes [] (concat (sizes d # map (\<lambda>(name, c). sizes c) named)) of
                       Inl e \<Rightarrow> Inl e
                     | Inr _ \<Rightarrow> Inr \<lparr>data = d, coords = named\<rparr>)))"

definition make_elev :: "'dem lib \<Rightarrow> 'dem \<Rightarrow> exn + val coord_array" where
  "make_elev l dem =
     (case read_gdal_values l dem of
        Inl e \<Rightarrow> Inl e
      | Inr elevation \<Rightarrow>
     (case read_gdal_coordinates l dem of
        Inl e \<Rightarrow> Inl e
      | Inr cs \<Rightarrow>
     (case take_last cs 1 of
        Inl e \<Rightarrow> Inl e
      | Inr lat \<Rightarrow>
     (case take_last cs 0 of
        Inl e \<Rightarrow> Inl e
      | Inr lon \<Rightarrow>
          new_DataArray elevation [''y'', ''x'']
            [(''lat'', [''y'', ''x''], lat), (''lon'', [''y'', ''x''], lon)]))))"

text \<open>
  \<^verbatim>\<open>rastervalues, rastercoords, proj = wrl.georef.extract_raster_dataset(dem, nodata=-32768.0)\<close>
  \<^verbatim>\<open>rlimits = (extent["left"], extent["bottom"], extent["right"], extent["top"])\<close>
  \<^verbatim>\<open>ind = wrl.util.find_bbox_indices(rastercoords, rlimits)\<close>
  \<^verbatim>\<open>rastercoords = rastercoords[ind[1] : ind[3], ind[0] : ind[2], ...]\<close>
  \<^verbatim>\<open>rastervalues = rastervalues[ind[1] : ind[3], ind[0] : ind[2]]\<close>
  A slice bound below zero counts from the end, and a bound outside the axis is moved
  to its nearer end; slicing two axes needs an array of two axes at least.
\<close>

definition slice_clamp :: "nat \<Rightarrow> int \<Rightarrow> nat" where
  "slice_clamp n i = nat (max 0 (min (if i < 0 then i + int n else i) (int n)))"

definition slice2 :: "'a ndarray \<Rightarrow> int \<Rightarrow> int \<Rightarrow> int \<Rightarrow> int \<Rightarrow> exn + 'a ndarray" where
  "slice2 a s1 e1 s0 e0 =
     (case shape a of
        n1 # n0 # rest \<Rightarrow>
          Inr \<lparr>shape = (slice_clamp n1 e1 - slice_clamp n1 s1)
                       # (slice_clamp n0 e0 - slice_clamp n0 s0) # rest,
               item = \<lambda>pos. case pos of
                        i # j # others \<Rightarrow>
                          item a ((slice_clamp n1 s1 + i) # (slice_clamp n0 s0 + j) # others)
                      | _ \<Rightarrow> item a pos\<rparr>
      | _ \<Rightarrow> Inl IndexError)"

definition getkey :: "(string \<times> 'v) list \<Rightarrow> string \<Rightarrow> exn + 'v" where
  "getkey d k = (case map_of d k of None \<Rightarrow> Inl KeyError | Some v \<Rightarrow> Inr v)"

definition clip_raster ::
  "'dem lib \<Rightarrow> 'dem \<Rightarrow> (string \<times> rat) list \<Rightarrow> exn + val ndarray \<times> val ndarray \<times> string" where
  "clip_raster l dem extent =
     (case extract_raster_dataset l dem (- 32768.0) of
        Inl e \<Rightarrow> Inl e
      | Inr (rastervalues, rastercoords, proj) \<Rightarrow>
     (case getkey extent ''left'' of Inl e \<Rightarrow> Inl e | Inr left' \<Rightarrow>
     (case getkey extent ''bottom'' of Inl e \<Rightarrow> Inl e | Inr bottom' \<Rightarrow>
     (case getkey extent ''right'' of Inl e \<Rightarrow> Inl e | Inr right' \<Rightarrow>
     (case getkey extent ''top'' of Inl e \<Rightarrow> Inl e | Inr top' \<Rightarrow>
     (case find_bbox_indices l rastercoords (left', bottom', right', top') of
        Inl e \<Rightarrow> Inl e
      | Inr ind \<Rightarrow>
     (case getitem ind 1 of Inl e \<Rightarrow> Inl e | Inr i1 \<Rightarrow>
     (case getitem ind 3 of Inl e \<Rightarrow> Inl e | Inr i3 \<Rightarrow>
     (case getitem ind 0 of Inl e \<Rightarrow> Inl e | Inr i0 \<Rightarrow>
     (case getitem ind 2 of Inl e \<Rightarrow> Inl e | Inr i2 \<Rightarrow>
     (case slice2 rastercoords i1 i3 i0 i2 of
        Inl e \<Rightarrow> Inl e
      | Inr rastercoords' \<Rightarrow>
     (case slice2 rastervalues i1 i3 i0 i2 of
        Inl e \<Rightarrow> Inl e
      | Inr rastervalues' \<Rightarrow> Inr (rastervalues', rastercoords', proj)))))))))))))"

section \<open>Quality index\<close>

text \<open>
  \<^verbatim>\<open>swpx = swpx.assign({"CBB": (["azimuth", "range"], CBB)})\<close>
  \<^verbatim>\<open>swpx = swpx.pipe(wrl.georef.georeference_dataset)\<close>
\<close>

definition assign_cbb :: "'dem lib \<Rightarrow> Dataset \<Rightarrow> val ndarray \<Rightarrow> exn + Dataset" where
  "assign_cbb l swpx CBB =
     (case from_ndarray [''azimuth'', ''range''] CBB of
        Inl e \<Rightarrow> Inl e
      | Inr v \<Rightarrow>
          (case assign swpx ''CBB'' v of
             Inl e \<Rightarrow> Inl e
           | Inr swpx' \<Rightarrow> georeference_dataset l swpx'))"

text \<open>
  Comparing an array with a number gives a boolean array of the same dimensions. \<open>&\<close>
  and \<open>where\<close> work position by position on arrays of one dataset, over the dimensions
  of both operands; sizes that conflict are an error. \<open>where\<close> keeps a value where the
  condition holds and puts not-a-number elsewhere.
\<close>

definition da_compare :: "(fval \<Rightarrow> bool) \<Rightarrow> val DataArray \<Rightarrow> bool DataArray" where
  "da_compare p da = \<lparr>sizes = sizes da, value_at = \<lambda>ix. p (to_float (value_at da ix))\<rparr>"

definition da_and :: "bool DataArray \<Rightarrow> bool DataArray \<Rightarrow> exn + bool DataArray" where
  "da_and a b =
     (case add_sizes (sizes a) (sizes b) of
        Inl e \<Rightarrow> Inl e
      | Inr sz \<Rightarrow> Inr \<lparr>sizes = sz, value_at = \<lambda>ix. value_at a ix \<and> value_at b ix\<rparr>)"

definition da_where :: "val DataArray \<Rightarrow> bool DataArray \<Rightarrow> exn + val DataArray" where
  "da_where v cond =
     (case add_sizes (sizes v) (sizes cond) of
        Inl e \<Rightarrow> Inl e
      | Inr sz \<Rightarrow>
          Inr \<lparr>sizes = sz,
               value_at = \<lambda>ix. if value_at cond ix then value_at v ix else Float NaN\<rparr>)"

definition ds_where :: "Dataset \<Rightarrow> bool DataArray \<Rightarrow> exn + Dataset" where
  "ds_where ds cond =
     (case mapM (\<lambda>(name, v). case da_where v cond of Inl e \<Rightarrow> Inl e | Inr w \<Rightarrow> Inr (name, w))
             (data_vars ds) of
        Inl e \<Rightarrow> Inl e
      | Inr vars \<Rightarrow> Inr (ds\<lparr>data_vars := vars\<rparr>))"

text \<open>
  \<^verbatim>\<open>swpx.where((swpx.CBB <= 0.5) & (swpx.CMAP < 1.0)\<close>
  \<^verbatim>\<open>    & (swpx.uncorrected_cross_correlation_ratio >= 0.8)).reflectivity_hh_clut\<close>
\<close>

definition quality_mask :: "Dataset \<Rightarrow> exn + bool DataArray" where
  "quality_mask swpx =
     (case getattr swpx ''CBB'' of
        Inl e \<Rightarrow> Inl e
      | Inr cbb \<Rightarrow>
     (case getattr swpx ''CMAP'' of
        Inl e \<Rightarrow> Inl e
      | Inr cmap \<Rightarrow>
     (case da_and (da_compare (\<lambda>x. fle x (Fin 0.5)) cbb) (da_compare (\<lambda>x. flt x (Fin 1.0)) cmap) of
        Inl e \<Rightarrow> Inl e
      | Inr m \<Rightarrow>
     (case getattr swpx ''uncorrected_cross_correlation_ratio'' of
        Inl e \<Rightarrow> Inl e
      | Inr rhohv \<Rightarrow> da_and m (da_compare (\<lambda>x. fle (Fin 0.8) x) rhohv)))))"

definition quality_index :: "Dataset \<Rightarrow> exn + val DataArray" where
  "quality_index swpx =
     (case quality_mask swpx of
        Inl e \<Rightarrow> Inl e
      | Inr m \<Rightarrow>
          (case ds_where swpx m of
             Inl e \<Rightarrow> Inl e
           | Inr masked \<Rightarrow> getattr masked ''reflectivity_hh_clut''))"

section \<open>Where the notebook's data lives\<close>

text \<open>
  The notebook is the section \<open>notebooks/wradlib/wradlib_data_quality\<close> of the wradlib
  chapter, and runs in its own directory. A relative path is resolved against that
  directory, component by component: \<open>.\<close> and empty components are dropped, \<open>..\<close>
  removes the component before it. A path lies under a directory when the directory's
  components are the first of its own.
\<close>

definition notebook_file :: string where
  "notebook_file = ''notebooks/wradlib/wradlib_data_quality''"

fun split_on :: "char \<Rightarrow> string \<Rightarrow> string list" where
  "split_on c [] = [ [] ]"
| "split_on c (x # xs) =
     (if x = c then [] # split_on c xs
      else (case split_on c xs of [] \<Rightarrow> [ [x] ] | w # ws \<Rightarrow> (x # w) # ws))"

fun join_path :: "string list \<Rightarrow> string" where
  "join_path [] = ''.''"
| "join_path [p] = p"
| "join_path (p # q # ps) = p @ ''/'' @ join_path (q # ps)"

fun collapse :: "string list \<Rightarrow> string list \<Rightarrow> string list" where
  "collapse acc [] = rev acc"
| "collapse acc (p # ps) =
     (if p = [] \<or> p = ''.'' then collapse acc ps
      else if p = ''..'' then
        (case acc of
           [] \<Rightarrow> collapse [p] ps
         | a # as \<Rightarrow> if a = ''..'' then collapse (p # acc) ps else collapse as ps)
      else collapse (p # acc) ps)"

definition resolve :: "string \<Rightarrow> string \<Rightarrow> string" where
  "resolve cwd p = join_path (collapse [] (split_on CHR ''/'' (path_join cwd p)))"

definition located_under :: "string \<Rightarrow> string \<Rightarrow> bool" where
  "located_under dir p = prefix (split_on CHR ''/'' dir) (split_on CHR ''/'' p)"

text \<open>
  The directories of a chapter are those of its own file and of its sections; the
  chapters over a path are those with a directory it lies under.
\<close>

definition chapter_dirs :: "toc_chapter \<Rightarrow> string list" where
  "chapter_dirs c = remdups (map dirname (chapter_files c))"

definition chapters_over :: "toc \<Rightarrow> string \<Rightarrow> string list" where
  "chapters_over t p =
     map chapter_file
       (filter (\<lambda>c. list_ex (\<lambda>d. located_under d p) (chapter_dirs c)) (all_chapters t))"

definition pyart_chapter :: toc_chapter where
  "pyart_chapter = all_chapters book_toc ! 3"

definition wradlib_chapter :: toc_chapter where
  "wradlib_chapter = all_chapters book_toc ! 4"

section \<open>Example inputs\<close>

text \<open>
  A data directory with two sweep files and another file, and a library that reads the
  file named first as the later sweep.
\<close>

definition example_listdir :: "string \<Rightarrow> string list option" where
  "example_listdir d =
     (if d = ''../pyart/data/example_pyrad/22179/MLL22179''
      then Some [''MLL2217907250U.003.nc'', ''notes.txt'', ''MLL2217907250U.001.nc'']
      else None)"

definition example_var :: "(nat \<Rightarrow> nat \<Rightarrow> val) \<Rightarrow> val DataArray" where
  "example_var f =
     \<lparr>sizes = [(''azimuth'', 2), (''range'', 2)],
      value_at = \<lambda>ix. f (ix ''azimuth'') (ix ''range'')\<rparr>"

definition example_reflectivity :: "val DataArray" where
  "example_reflectivity = example_var (\<lambda>i j. Float (Fin (of_nat (10 * i + 30 * j))))"

definition example_rhohv :: "val DataArray" where
  "example_rhohv = example_var (\<lambda>i j. Float (if i = 1 \<and> j = 0 then Fin 0.7 else Fin 0.9))"

definition example_sweep :: "int \<Rightarrow> Dataset" where
  "example_sweep t =
     \<lparr>time = Some (Times \<lparr>sizes = [(''azimuth'', 2)],
                          value_at = \<lambda>ix. Stamp (if ix ''azimuth'' = 0 then 1000 - t else t)\<rparr>),
      data_vars =
        [(''reflectivity_hh_clut'', example_reflectivity),
         (''uncorrected_cross_correlation_ratio'', example_rhohv)]\<rparr>"

text \<open>The sweep with a clutter map and a cumulative beam blockage.\<close>

definition example_cmap :: "val DataArray" where
  "example_cmap = example_var (\<lambda>i j. Bool (i = 0 \<and> j = 1))"

definition example_cbb :: "val DataArray" where
  "example_cbb = example_var (\<lambda>i j. Float (if i = 1 \<and> j = 1 then Fin 0.6 else Fin 0.3))"

definition example_swpx :: Dataset where
  "example_swpx =
     (example_sweep 100)\<lparr>
       data_vars :=
         data_vars (example_sweep 100) @ [(''CMAP'', example_cmap), (''CBB'', example_cbb)]\<rparr>"

definition example_gabella :: "gabella_kwargs \<Rightarrow> val ndarray \<Rightarrow> exn + val ndarray" where
  "example_gabella kw a =
     Inr \<lparr>shape = shape a, item = \<lambda>pos. Bool (flt (Fin (tr1 kw)) (to_float (item a pos)))\<rparr>"

text \<open>
  An elevation model of three rows and three columns, with its coordinates, and an
  extent; the bounding box takes the first two rows and the last two columns.
\<close>

definition example_elevation :: "val ndarray" where
  "example_elevation =
     \<lparr>shape = [3, 3],
      item = \<lambda>pos. case pos of
               [i, j] \<Rightarrow> Float (Fin (of_nat (100 * i + j)))
             | _ \<Rightarrow> Float NaN\<rparr>"

definition example_coordinates :: "val ndarray" where
  "example_coordinates =
     \<lparr>shape = [3, 3, 2],
      item = \<lambda>pos. case pos of
               [i, j, k] \<Rightarrow> Float (Fin (of_nat (if k = 0 then 7 + j else 46 + i)))
             | _ \<Rightarrow> Float NaN\<rparr>"

definition example_extent :: "(string \<times> rat) list" where
  "example_extent = [(''left'', 8), (''right'', 9), (''bottom'', 46), (''top'', 47)]"

definition example_lib :: "nat lib" where
  "example_lib =
     \<lparr>open_dataset = \<lambda>f group engine.
        if f = ''../pyart/data/example_pyrad/22179/MLL22179/MLL2217907250U.001.nc''
        then Inr (example_sweep 200) else Inr (example_sweep 100),
      filter_gabella = example_gabella,
      georeference_dataset = Inr,
      get_srtm = \<lambda>env extent_values.
        if env ''WRADLIB_DATA'' = Some ''data/wradlib-data'' then Inr 0
        else Inl (LibraryError ''no tiles''),
      read_gdal_values = \<lambda>dem. Inr example_elevation,
      read_gdal_coordinates = \<lambda>dem. Inr example_coordinates,
      extract_raster_dataset = \<lambda>dem nodata.
        Inr (example_elevation, example_coordinates, ''EPSG:4326''),
      find_bbox_indices = \<lambda>rastercoords rlimits. Inr [1, 0, 3, 2]\<rparr>"

definition example_cbb_array :: "val ndarray" where
  "example_cbb_array =
     \<lparr>shape = [2, 2], item = \<lambda>pos. Float (if pos = [1, 1] then Fin 0.6 else Fin 0.3)\<rparr>"

text \<open>
  Three sweep files, the second without time stamps: its sweep's time coordinate holds
  \<open>NaT\<close> only.
\<close>

definition nat_sweep :: Dataset where
  "nat_sweep =
     (example_sweep 5)\<lparr>time := Some (Times \<lparr>sizes = [(''azimuth'', 2)], value_at = \<lambda>ix. NaT\<rparr>)\<rparr>"

definition nat_listdir :: "string \<Rightarrow> string list option" where
  "nat_listdir d =
     (if d = ''../pyart/data/example_pyrad/22179/MLL22179''
      then Some [''MLL2217907250U.001.nc'', ''MLL2217907250U.002.nc'',
                 ''MLL2217907250U.003.nc'']
      else None)"

definition nat_lib :: "nat lib" where
  "nat_lib =
     example_lib\<lparr>open_dataset := \<lambda>f group engine.
        if f = ''../pyart/data/example_pyrad/22179/MLL22179/MLL2217907250U.001.nc''
        then Inr (example_sweep 7)
        else if f = ''../pyart/data/example_pyrad/22179/MLL22179/MLL2217907250U.002.nc''
        then Inr nat_sweep
        else Inr (example_sweep 3)\<rparr>"

section \<open>Properties of the table of contents\<close>

text \<open>
  C6: the parts of the table of contents are, in this order, the introductions and
  overview, the tool tutorials, the open-radar workflows and the developer guide; the
  tool part lists Py-ART, wradlib, BALTRAD and LROSE in this order (and the environment
  page after them); no file is listed twice.
\<close>

theorem toc_parts_in_order:
  "map caption (parts book_toc) =
     [''Introductions + Overview'', ''Tool Foundations'', ''Open Radar Workflows'',
      ''Becoming a developer'']
   \<and> map (map chapter_file \<circ> chapters) (parts book_toc) =
     [ [''introductions/getting-started'', ''introductions/open-science'',
       ''introductions/open-radar''],
      [''pyart/README.md'', ''wradlib/README.md'', ''baltrad/README.md'',
       ''lrose/README.md'', ''notebooks/environment''],
      [''workflows/README.md''],
      [''package-development/README.md''] ]
   \<and> distinct (toc_files book_toc)"
  by (simp add: book_toc_def toc_files_def all_chapters_def chapter_files_def)

section \<open>The radar volume is sorted by time\<close>

lemma mapM_Inr_D: "mapM f xs = Inr ys \<Longrightarrow> map f xs = map Inr ys"
  by (induction xs arbitrary: ys) (auto split: sum.splits)

lemma mapM_Inr_I: "map f xs = map Inr ys \<Longrightarrow> mapM f xs = Inr ys"
  by (induction xs arbitrary: ys) auto

lemma mapM_Inr_iff: "mapM f xs = Inr ys \<longleftrightarrow> map f xs = map Inr ys"
  using mapM_Inr_D mapM_Inr_I by blast

lemma mapM_Inr_length: "mapM f xs = Inr ys \<Longrightarrow> length ys = length xs"
  by (metis length_map mapM_Inr_iff)

lemma mapM_zip:
  assumes "mapM f xs = Inr ks" and "p \<in> set (zip ks xs)"
  shows "f (snd p) = Inr (fst p)"
proof -
  from assms(1) have m: "map f xs = map Inr ks" by (rule mapM_Inr_D)
  then have len: "length ks = length xs" by (metis length_map)
  from assms(2) obtain i where i: "i < length xs" "p = (ks ! i, xs ! i)"
    using len by (auto simp: set_zip)
  from m i(1) have "f (xs ! i) = Inr (ks ! i)" by (metis len nth_map)
  with i show ?thesis by simp
qed

text \<open>The sort only rearranges the list, whatever the comparison.\<close>

lemma mset_take_drop: "mset (take k xs) + mset (drop k xs) = mset xs"
  by (metis append_take_drop_id mset_append)

lemma mset_binary_insert: "mset (binary_insert lt x xs) = add_mset x (mset xs)"
  by (simp add: binary_insert_def Let_def mset_take_drop)

lemma mset_fold_binary_insert:
  "mset (fold (binary_insert lt) ys xs) = mset ys + mset xs"
  by (induction ys arbitrary: xs) (simp_all add: mset_binary_insert)

lemma mset_list_sort: "mset (list_sort lt xs) = mset xs"
proof (cases xs)
  case Nil
  then show ?thesis by simp
next
  case (Cons x ys)
  show ?thesis
  proof (cases ys)
    case Nil
    with Cons show ?thesis by simp
  next
    case (Cons y zs)
    have "mset (drop n zs) + add_mset x (add_mset y (mset (take n zs)))
        = add_mset x (add_mset y (mset zs))" for n
      using mset_take_drop [of n zs] by (simp add: add.commute)
    with Cons \<open>xs = x # ys\<close> show ?thesis
      by (simp add: mset_fold_binary_insert Let_def)
  qed
qed

text \<open>
  On items that the comparison orders as a function \<open>f\<close> into a linear order does, the
  sort gives a list sorted by \<open>f\<close>.
\<close>

lemma bisect_le: "l \<le> r \<Longrightarrow> l \<le> bisect lt pv xs l r \<and> bisect lt pv xs l r \<le> r"
proof (induction lt pv xs l r rule: bisect.induct)
  case (1 lt pivot xs l r)
  show ?case
  proof (cases "l < r")
    case False
    with "1.prems" show ?thesis by (simp add: bisect.simps)
  next
    case True
    define p where "p = l + (r - l) div 2"
    from True have lp: "l \<le> p" and pr: "p < r" by (simp_all add: p_def)
    show ?thesis
    proof (cases "lt pivot (xs ! p)")
      case True
      from "1.IH"(1) [OF \<open>l < r\<close> p_def True lp] pr True \<open>l < r\<close>
      show ?thesis by (simp add: bisect.simps [of lt pivot xs l r] p_def Let_def)
    next
      case False
      from pr have "Suc p \<le> r" by simp
      from "1.IH"(2) [OF \<open>l < r\<close> p_def False this] lp False \<open>l < r\<close>
      show ?thesis by (simp add: bisect.simps [of lt pivot xs l r] p_def Let_def)
    qed
  qed
qed

lemma bisect_split:
  assumes "sorted (map f xs)" and "\<forall>x\<in>set xs. lt pv x \<longleftrightarrow> f pv < f x"
  shows "l \<le> r \<Longrightarrow> r \<le> length xs \<Longrightarrow> \<forall>i<l. f (xs ! i) \<le> f pv \<Longrightarrow>
         \<forall>i. r \<le> i \<longrightarrow> i < length xs \<longrightarrow> f pv < f (xs ! i) \<Longrightarrow>
         (\<forall>i<bisect lt pv xs l r. f (xs ! i) \<le> f pv)
         \<and> (\<forall>i. bisect lt pv xs l r \<le> i \<longrightarrow> i < length xs \<longrightarrow> f pv < f (xs ! i))"
  using assms
proof (induction lt pv xs l r rule: bisect.induct)
  case (1 lt pivot xs l r)
  show ?case
  proof (cases "l < r")
    case False
    with "1.prems" show ?thesis by (simp add: bisect.simps)
  next
    case True
    define p where "p = l + (r - l) div 2"
    from True have lp: "l \<le> p" and pr: "p < r" by (simp_all add: p_def)
    from pr "1.prems"(2) have plen: "p < length xs" by simp
    have mono: "i \<le> j \<Longrightarrow> j < length xs \<Longrightarrow> f (xs ! i) \<le> f (xs ! j)" for i j
      using "1.prems"(5) sorted_nth_mono [of "map f xs" i j] by simp
    show ?thesis
    proof (cases "lt pivot (xs ! p)")
      case True
      with "1.prems"(6) plen have below: "f pivot < f (xs ! p)" by simp
      have right: "\<forall>i. p \<le> i \<longrightarrow> i < length xs \<longrightarrow> f pivot < f (xs ! i)"
        using below mono by (meson less_le_trans)
      from pr "1.prems"(2) have "p \<le> length xs" by simp
      from "1.IH"(1) [OF \<open>l < r\<close> p_def True lp this "1.prems"(3) right "1.prems"(5,6)]
        True \<open>l < r\<close>
      show ?thesis by (simp add: bisect.simps [of lt pivot xs l r] p_def Let_def)
    next
      case False
      with "1.prems"(6) plen have above: "f (xs ! p) \<le> f pivot" by (simp add: not_less)
      have left: "\<forall>i<Suc p. f (xs ! i) \<le> f pivot"
        using above mono plen by (meson less_Suc_eq_le order_trans)
      from pr have sp: "Suc p \<le> r" by simp
      from "1.IH"(2) [OF \<open>l < r\<close> p_def False sp "1.prems"(2) left "1.prems"(4) "1.prems"(5,6)]
        False \<open>l < r\<close>
      show ?thesis by (simp add: bisect.simps [of lt pivot xs l r] p_def Let_def)
    qed
  qed
qed

lemma sorted_binary_insert:
  assumes "sorted (map f xs)" and "\<forall>x\<in>set xs. lt pv x \<longleftrightarrow> f pv < f x"
  shows "sorted (map f (binary_insert lt pv xs))"
proof -
  define k where "k = bisect lt pv xs 0 (length xs)"
  have k: "k \<le> length xs" using bisect_le [of 0 "length xs" lt pv xs] by (simp add: k_def)
  have lo: "\<forall>i<k. f (xs ! i) \<le> f pv"
    and hi: "\<forall>i. k \<le> i \<longrightarrow> i < length xs \<longrightarrow> f pv < f (xs ! i)"
    using bisect_split [where f = f and xs = xs and lt = lt and pv = pv and l = 0
        and r = "length xs"] assms
    by (simp_all add: k_def)
  have 1: "sorted (map f (take k xs))" using assms(1) by (simp add: take_map [symmetric] sorted_wrt_take)
  have 2: "sorted (map f (drop k xs))" using assms(1) by (simp add: drop_map [symmetric] sorted_wrt_drop)
  have 3: "\<forall>x\<in>set (take k xs). f x \<le> f pv"
  proof
    fix x assume "x \<in> set (take k xs)"
    then obtain i where "i < k" "i < length xs" "x = xs ! i"
      using k by (auto simp: in_set_conv_nth)
    with lo show "f x \<le> f pv" by simp
  qed
  have 4: "\<forall>y\<in>set (drop k xs). f pv < f y"
  proof
    fix y assume "y \<in> set (drop k xs)"
    then obtain i where "i < length xs - k" "y = xs ! (k + i)"
      by (auto simp: in_set_conv_nth)
    then have "k + i < length xs" "y = xs ! (k + i)" by simp_all
    with hi show "f pv < f y" by simp
  qed
  have "sorted (map f (take k xs) @ f pv # map f (drop k xs))"
    using 1 2 3 4 by (fastforce simp: sorted_append)
  then show ?thesis by (simp add: binary_insert_def Let_def k_def)
qed

lemma set_binary_insert: "set (binary_insert lt x xs) = insert x (set xs)"
  by (metis mset_binary_insert set_mset_add_mset_insert set_mset_mset)

lemma sorted_fold_binary_insert:
  assumes "sorted (map f run)"
    and "\<forall>x\<in>set rest \<union> set run. \<forall>y\<in>set rest \<union> set run. lt x y \<longleftrightarrow> f x < f y"
  shows "sorted (map f (fold (binary_insert lt) rest run))"
  using assms
proof (induction rest arbitrary: run)
  case Nil
  then show ?case by simp
next
  case (Cons x rest)
  have "sorted (map f (binary_insert lt x run))"
    using Cons.prems by (intro sorted_binary_insert) auto
  moreover have "\<forall>a\<in>set rest \<union> set (binary_insert lt x run).
      \<forall>b\<in>set rest \<union> set (binary_insert lt x run). lt a b \<longleftrightarrow> f a < f b"
    using Cons.prems(2) by (simp add: set_binary_insert)
  ultimately show ?case using Cons.IH by simp
qed

lemma sorted_asc_run:
  assumes "\<forall>a\<in>set (x # ys). \<forall>b\<in>set (x # ys). lt a b \<longleftrightarrow> f a < f b"
  shows "sorted (map f (x # take (asc_run lt x ys) ys))"
  using assms
proof (induction ys arbitrary: x)
  case Nil
  then show ?case by simp
next
  case (Cons y ys)
  show ?case
  proof (cases "lt y x")
    case True
    then show ?thesis by simp
  next
    case False
    with Cons.prems have xy: "f x \<le> f y" by (simp add: not_less)
    have IH: "sorted (map f (y # take (asc_run lt y ys) ys))"
      using Cons.prems by (intro Cons.IH) simp
    then have "\<forall>z\<in>set (take (asc_run lt y ys) ys). f y \<le> f z" by simp
    with xy have "\<forall>z\<in>set (take (asc_run lt y ys) ys). f x \<le> f z"
      by (meson order_trans)
    with IH xy False show ?thesis by simp
  qed
qed

lemma sorted_desc_run:
  assumes "\<forall>a\<in>set (x # ys). \<forall>b\<in>set (x # ys). lt a b \<longleftrightarrow> f a < f b"
  shows "sorted (map f (rev (x # take (desc_run lt x ys) ys)))"
proof -
  have "sorted_wrt (\<lambda>a b. f b \<le> f a) (x # take (desc_run lt x ys) ys)"
    using assms
  proof (induction ys arbitrary: x)
    case Nil
    then show ?case by simp
  next
    case (Cons y ys)
    show ?case
    proof (cases "lt y x")
      case False
      then show ?thesis by simp
    next
      case True
      with Cons.prems have "f y < f x" by simp
      then have yx: "f y \<le> f x" by (rule less_imp_le)
      have IH: "sorted_wrt (\<lambda>a b. f b \<le> f a) (y # take (desc_run lt y ys) ys)"
        using Cons.prems by (intro Cons.IH) simp
      then have "\<forall>z\<in>set (take (desc_run lt y ys) ys). f z \<le> f y" by simp
      with yx have "\<forall>z\<in>set (y # take (desc_run lt y ys) ys). f z \<le> f x"
        by (auto intro: order_trans)
      with IH True show ?thesis by simp
    qed
  qed
  then show ?thesis
    by (simp only: rev_map [symmetric] sorted_wrt_rev sorted_wrt_map)
qed

lemma sorted_list_sort:
  assumes "\<forall>a\<in>set xs. \<forall>b\<in>set xs. lt a b \<longleftrightarrow> f a < f b"
  shows "sorted (map f (list_sort lt xs))"
proof (cases xs)
  case Nil
  then show ?thesis by simp
next
  case (Cons x ys)
  show ?thesis
  proof (cases ys)
    case Nil
    with Cons show ?thesis by simp
  next
    case (Cons y zs)
    note xs = \<open>xs = x # ys\<close> Cons
    have sub: "set (drop n zs) \<union> set (x # y # take n zs) \<subseteq> set xs" for n
      using xs by (auto dest: in_set_dropD in_set_takeD)
    have agree: "\<forall>a\<in>set (drop n zs) \<union> set (x # y # take n zs).
        \<forall>b\<in>set (drop n zs) \<union> set (x # y # take n zs). lt a b \<longleftrightarrow> f a < f b" for n
      using assms sub [of n] by (meson subsetD)
    have all: "\<forall>a\<in>set (x # y # zs). \<forall>b\<in>set (x # y # zs). lt a b \<longleftrightarrow> f a < f b"
      using assms xs by simp
    show ?thesis
    proof (cases "lt y x")
      case True
      have "sorted (map f (rev (x # take (desc_run lt x (y # zs)) (y # zs))))"
        by (rule sorted_desc_run [OF all])
      with True have run: "sorted (map f (rev (x # y # take (desc_run lt y zs) zs)))" by simp
      have "sorted (map f (fold (binary_insert lt) (drop (desc_run lt y zs) zs)
          (rev (x # y # take (desc_run lt y zs) zs))))"
        using run agree [of "desc_run lt y zs"] by (intro sorted_fold_binary_insert) simp_all
      with True xs show ?thesis by (simp add: Let_def)
    next
      case False
      have "sorted (map f (x # take (asc_run lt x (y # zs)) (y # zs)))"
        by (rule sorted_asc_run [OF all])
      with False have run: "sorted (map f (x # y # take (asc_run lt y zs) zs))" by simp
      have "sorted (map f (fold (binary_insert lt) (drop (asc_run lt y zs) zs)
          (x # y # take (asc_run lt y zs) zs)))"
        using run agree [of "asc_run lt y zs"] by (intro sorted_fold_binary_insert) simp_all
      with False xs show ?thesis by (simp add: Let_def)
    qed
  qed
qed

text \<open>The least time stamp of a sweep with valid time stamps is its key.\<close>

lemma fold_dt_min:
  "NaT \<notin> set vs \<Longrightarrow>
     \<exists>m. fold dt_min vs (Stamp a) = Stamp m \<and> (m = a \<or> Stamp m \<in> set vs) \<and> m \<le> a
         \<and> list_all (\<lambda>v. dt_le (Stamp m) v) vs"
proof (induction vs arbitrary: a)
  case Nil
  then show ?case by simp
next
  case (Cons v vs)
  from Cons.prems obtain b where v: "v = Stamp b" and vs: "NaT \<notin> set vs"
    by (cases v) auto
  from Cons.IH [OF vs, of "min a b"] obtain m where
    m: "fold dt_min vs (Stamp (min a b)) = Stamp m" "m = min a b \<or> Stamp m \<in> set vs"
       "m \<le> min a b" "list_all (\<lambda>v. dt_le (Stamp m) v) vs"
    by blast
  from m(2) have 1: "m = a \<or> Stamp m \<in> set (v # vs)"
    using v by (auto simp: min_def split: if_splits)
  from m(3) have 2: "m \<le> a" and 3: "dt_le (Stamp m) v" using v by simp_all
  have "fold dt_min (v # vs) (Stamp a) = Stamp m" using m(1) v by (simp add: min.commute)
  moreover have "list_all (\<lambda>v. dt_le (Stamp m) v) (v # vs)" using 3 m(4) by simp
  ultimately show ?case using 1 2 by blast
qed

lemma time_min_valid:
  assumes "valid_times d" and "time_min d = Inr k"
  shows "\<exists>m. k = TimeKey (Stamp m) \<and> least_stamp d m"
proof -
  from assms(1) obtain t where t: "time d = Some (Times t)" and nat: "NaT \<notin> set (values_of t)"
    by (auto simp: valid_times_def split: option.splits tcoord.splits)
  from assms(2) t obtain v vs where vs: "values_of t = v # vs" and k: "k = TimeKey (fold dt_min vs v)"
    by (auto simp: time_min_def da_min_def split: list.splits sum.splits)
  from nat vs obtain a where a: "v = Stamp a" and nvs: "NaT \<notin> set vs" by (cases v) auto
  from fold_dt_min [OF nvs, of a] obtain m where
    m: "fold dt_min vs (Stamp a) = Stamp m" "m = a \<or> Stamp m \<in> set vs" "m \<le> a"
       "list_all (\<lambda>v. dt_le (Stamp m) v) vs"
    by blast
  have "least_stamp d m" using t vs a m(2,3,4) by (auto simp: least_stamp_def)
  with k a m(1) show ?thesis by simp
qed

lemma sort_with_key_mset: "sort_with_key keyfunc xs = Inr ys \<Longrightarrow> mset ys = mset xs"
proof -
  assume a: "sort_with_key keyfunc xs = Inr ys"
  then obtain ks where ks: "mapM keyfunc xs = Inr ks"
    and ys: "ys = map snd (list_sort (\<lambda>a b. key_lt (fst a) (fst b)) (zip ks xs))"
    by (auto simp: sort_with_key_def split: sum.splits if_splits)
  from ks have len: "length ks = length xs" by (rule mapM_Inr_length)
  have "mset ys = image_mset snd (mset (zip ks xs))" by (simp add: ys mset_list_sort)
  also have "\<dots> = mset (map snd (zip ks xs))" by simp
  also have "\<dots> = mset xs" using len by simp
  finally show ?thesis .
qed

lemma sort_with_key_sorted:
  assumes "sort_with_key keyfunc xs = Inr ys"
    and "\<forall>x\<in>set xs. \<forall>k. keyfunc x = Inr k \<longrightarrow> (\<exists>m. k = TimeKey (Stamp m) \<and> P x m)"
  shows "\<exists>ms. list_all2 P ys ms \<and> sorted ms"
proof -
  let ?lt = "\<lambda>a b. key_lt (fst a) (fst b)"
  let ?f = "\<lambda>p. case fst p of TimeKey (Stamp m) \<Rightarrow> m | _ \<Rightarrow> (0::int)"
  from assms(1) obtain ks where ks: "mapM keyfunc xs = Inr ks"
    and ys: "ys = map snd (list_sort ?lt (zip ks xs))"
    by (auto simp: sort_with_key_def split: sum.splits if_splits)
  have pair: "\<exists>m. fst p = TimeKey (Stamp m) \<and> P (snd p) m" if "p \<in> set (zip ks xs)" for p
  proof -
    from mapM_zip [OF ks that] have "keyfunc (snd p) = Inr (fst p)" .
    moreover from that have "snd p \<in> set xs" by (metis in_set_zipE prod.collapse)
    ultimately show ?thesis using assms(2) by blast
  qed
  have agree: "\<forall>a\<in>set (zip ks xs). \<forall>b\<in>set (zip ks xs). ?lt a b \<longleftrightarrow> ?f a < ?f b"
  proof (intro ballI)
    fix a b assume "a \<in> set (zip ks xs)" "b \<in> set (zip ks xs)"
    from pair [OF this(1)] pair [OF this(2)] show "?lt a b \<longleftrightarrow> ?f a < ?f b" by auto
  qed
  let ?sp = "list_sort ?lt (zip ks xs)"
  have sorted: "sorted (map ?f ?sp)" by (rule sorted_list_sort [OF agree])
  have "set ?sp = set (zip ks xs)" by (metis mset_list_sort set_mset_mset)
  then have "\<forall>p\<in>set ?sp. P (snd p) (?f p)" using pair by fastforce
  then have "list_all2 P (map snd ?sp) (map ?f ?sp)"
    by (simp add: list_all2_map1 list_all2_map2 list_all2_same)
  with sorted ys show ?thesis by blast
qed

text \<open>
  C8, amended: when the volume is read and every sweep in it has valid time stamps, the
  sweeps are in nondecreasing order of their least time stamps, and the volume holds
  the opened sweeps, one for each matched file, each exactly once.
\<close>

theorem volume_sorted_by_time:
  assumes "read_volume l listdir = Inr vol"
    and "\<forall>d\<in>set vol. valid_times d"
  shows "\<exists>ds ms. open_sweeps l (read_flist listdir) = Inr ds
           \<and> length ds = length (glob listdir fglob)
           \<and> mset vol = mset ds
           \<and> list_all2 least_stamp vol ms \<and> sorted ms"
proof -
  from assms(1) obtain ds where ds: "open_sweeps l (read_flist listdir) = Inr ds"
    and vol: "sort_with_key time_min ds = Inr vol"
    by (auto simp: read_volume_def make_volume_def extend_def RadarVolume_new_def
        split: sum.splits)
  from ds have len: "length ds = length (glob listdir fglob)"
    by (simp add: open_sweeps_def read_flist_def mapM_Inr_length)
  have m: "mset vol = mset ds" by (rule sort_with_key_mset [OF vol])
  then have "set ds = set vol" by (metis set_mset_mset)
  with assms(2) have "\<forall>d\<in>set ds. \<forall>k. time_min d = Inr k \<longrightarrow>
      (\<exists>m. k = TimeKey (Stamp m) \<and> least_stamp d m)"
    using time_min_valid by blast
  from sort_with_key_sorted [OF vol this] obtain ms where
    "list_all2 least_stamp vol ms" "sorted ms" by blast
  with ds len m show ?thesis by blast
qed

lemma example_flist:
  "read_flist example_listdir =
     [''../pyart/data/example_pyrad/22179/MLL22179/MLL2217907250U.001.nc'',
      ''../pyart/data/example_pyrad/22179/MLL22179/MLL2217907250U.003.nc'']"
  by code_simp

lemma example_time_min:
  "time_min (example_sweep t) = Inr (TimeKey (Stamp (min t (1000 - t))))"
  by (simp add: time_min_def example_sweep_def da_min_def values_of_def upt_rec)

lemma example_valid_times: "valid_times (example_sweep t)"
  by (simp add: valid_times_def example_sweep_def values_of_def upt_rec)

lemma example_read_volume:
  "read_volume example_lib example_listdir = Inr [example_sweep 100, example_sweep 200]"
  by (simp add: read_volume_def example_flist open_sweeps_def example_lib_def make_volume_def
      extend_def RadarVolume_new_def sort_with_key_def example_time_min)

theorem volume_sorted_by_time_witness:
  "read_volume example_lib example_listdir = Inr [example_sweep 100, example_sweep 200]
   \<and> list_all valid_times [example_sweep 100, example_sweep 200]
   \<and> (\<exists>ds ms. open_sweeps example_lib (read_flist example_listdir) = Inr ds
           \<and> length ds = length (glob example_listdir fglob)
           \<and> mset [example_sweep 100, example_sweep 200] = mset ds
           \<and> list_all2 least_stamp [example_sweep 100, example_sweep 200] ms \<and> sorted ms)"
proof -
  have v: "\<forall>d\<in>set [example_sweep 100, example_sweep 200]. valid_times d"
    by (simp add: example_valid_times)
  from volume_sorted_by_time [OF example_read_volume v] example_read_volume
  show ?thesis by (simp add: example_valid_times)
qed

lemma nat_flist:
  "read_flist nat_listdir =
     [''../pyart/data/example_pyrad/22179/MLL22179/MLL2217907250U.001.nc'',
      ''../pyart/data/example_pyrad/22179/MLL22179/MLL2217907250U.002.nc'',
      ''../pyart/data/example_pyrad/22179/MLL22179/MLL2217907250U.003.nc'']"
  by code_simp

lemma nat_time_min: "time_min nat_sweep = Inr (TimeKey NaT)"
  by (simp add: time_min_def nat_sweep_def da_min_def values_of_def upt_rec)

lemma example_least_stamp: "t \<le> 500 \<Longrightarrow> least_stamp (example_sweep t) t"
  by (simp add: least_stamp_def example_sweep_def values_of_def upt_rec)

text \<open>
  C8, as stated, fails: of three matched files let the second open as a sweep whose
  time stamps are all \<open>NaT\<close>. Its minimum is \<open>NaT\<close>, no comparison with it holds,
  and the sort leaves the three sweeps as they are: the sweep with least time stamp 7
  before the one with least time stamp 3.
\<close>

theorem nat_sweep_breaks_order:
  "read_volume nat_lib nat_listdir = Inr [example_sweep 7, nat_sweep, example_sweep 3]
   \<and> mapM time_min [example_sweep 7, nat_sweep, example_sweep 3]
       = Inr [TimeKey (Stamp 7), TimeKey NaT, TimeKey (Stamp 3)]
   \<and> least_stamp (example_sweep 7) 7 \<and> least_stamp (example_sweep 3) 3
   \<and> \<not> sorted [7, 3 :: int]"
proof -
  have "read_volume nat_lib nat_listdir = Inr [example_sweep 7, nat_sweep, example_sweep 3]"
    by (simp add: read_volume_def nat_flist open_sweeps_def nat_lib_def example_lib_def
        make_volume_def extend_def RadarVolume_new_def sort_with_key_def example_time_min
        nat_time_min)
  then show ?thesis by (simp add: example_least_stamp example_time_min nat_time_min)
qed

lemma mapM_total:
  "(\<forall>x\<in>set xs. \<exists>y. f x = Inr y) \<Longrightarrow> \<exists>ys. mapM f xs = Inr ys"
proof (induction xs)
  case Nil
  then show ?case by simp
next
  case (Cons a xs)
  then obtain y ys where "f a = Inr y" "mapM f xs = Inr ys" by auto
  then show ?case by simp
qed

lemma mapM_Inr_set:
  assumes "mapM f xs = Inr ys" and "y \<in> set ys"
  shows "\<exists>x\<in>set xs. f x = Inr y"
proof -
  from assms(1) have m: "map f xs = map Inr ys" by (rule mapM_Inr_D)
  from assms(2) obtain i where i: "i < length ys" "ys ! i = y"
    by (auto simp: in_set_conv_nth)
  from m have len: "length xs = length ys" by (metis length_map)
  from m i len have "f (xs ! i) = Inr y" by (metis nth_map)
  with i len show ?thesis by (metis nth_mem)
qed

text \<open>
  The volume is read whenever every matched file opens as a sweep with valid time
  stamps, one at least.
\<close>

lemma time_min_returns:
  assumes "valid_times d" and "least_stamp d k"
  shows "\<exists>m. time_min d = Inr (TimeKey (Stamp m))"
proof -
  from assms(1) obtain t where t: "time d = Some (Times t)"
    by (auto simp: valid_times_def split: option.splits tcoord.splits)
  with assms(2) have "values_of t \<noteq> []" by (auto simp: least_stamp_def)
  then obtain v vs where "values_of t = v # vs" by (cases "values_of t") auto
  with t have "\<exists>key. time_min d = Inr key" by (simp add: time_min_def da_min_def)
  then obtain key where key: "time_min d = Inr key" by blast
  from time_min_valid [OF assms(1) key] key show ?thesis by blast
qed

lemma read_volume_returns:
  assumes "\<forall>f\<in>set (glob listdir fglob).
             \<exists>d k. open_dataset l f ''sweep_1'' ''cfradial1'' = Inr d
                   \<and> valid_times d \<and> least_stamp d k"
  shows "\<exists>vol. read_volume l listdir = Inr vol"
proof -
  let ?open = "\<lambda>f. open_dataset l f ''sweep_1'' ''cfradial1''"
  have "\<forall>f\<in>set (read_flist listdir). \<exists>d. ?open f = Inr d"
    using assms by (auto simp: read_flist_def)
  from mapM_total [OF this] obtain ds where ds: "mapM ?open (read_flist listdir) = Inr ds"
    by blast
  have keys: "\<forall>d\<in>set ds. \<exists>m. time_min d = Inr (TimeKey (Stamp m))"
  proof
    fix d assume "d \<in> set ds"
    from mapM_Inr_set [OF ds this] obtain f where
      "f \<in> set (read_flist listdir)" "?open f = Inr d" by blast
    with assms have "\<exists>k. valid_times d \<and> least_stamp d k" by (fastforce simp: read_flist_def)
    then show "\<exists>m. time_min d = Inr (TimeKey (Stamp m))" using time_min_returns by blast
  qed
  then have "\<forall>d\<in>set ds. \<exists>key. time_min d = Inr key" by blast
  from mapM_total [OF this] obtain ks where ks: "mapM time_min ds = Inr ks" by blast
  have "\<forall>key\<in>set ks. is_time_key key"
  proof
    fix key assume "key \<in> set ks"
    from mapM_Inr_set [OF ks this] obtain d where "d \<in> set ds" "time_min d = Inr key" by blast
    with keys show "is_time_key key" by fastforce
  qed
  then have "\<not> list_ex (\<lambda>k. \<not> is_time_key k) ks" by (simp add: list_ex_iff)
  with ds ks show ?thesis
    by (simp add: read_volume_def open_sweeps_def make_volume_def extend_def
        RadarVolume_new_def sort_with_key_def)
qed

section \<open>The clutter map has the dimensions of its input\<close>

lemma add_sizes_Inr_iff:
  "single_valued (set acc) \<Longrightarrow>
     (\<exists>r. add_sizes acc xs = Inr r) \<longleftrightarrow> single_valued (set acc \<union> set xs)"
proof (induction xs arbitrary: acc)
  case Nil
  then show ?case by simp
next
  case (Cons p rest)
  obtain d n where p: "p = (d, n)" by (cases p)
  show ?case
  proof (cases "map_of acc d")
    case None
    then have fresh: "d \<notin> fst ` set acc" by (simp add: map_of_eq_None_iff)
    have sv: "single_valued (set (acc @ [(d, n)]))"
    proof (rule single_valuedI)
      fix x y z
      assume y: "(x, y) \<in> set (acc @ [(d, n)])" and z: "(x, z) \<in> set (acc @ [(d, n)])"
      show "y = z"
      proof (cases "x = d")
        case True
        with fresh have "(x, y) \<notin> set acc" "(x, z) \<notin> set acc" by force+
        with y z show ?thesis by simp
      next
        case False
        with y z have "(x, y) \<in> set acc" "(x, z) \<in> set acc" by simp_all
        with Cons.prems show ?thesis by (rule single_valuedD)
      qed
    qed
    have eq: "set (acc @ [(d, n)]) \<union> set rest = set acc \<union> set (p # rest)"
      using p by auto
    have "add_sizes acc (p # rest) = add_sizes (acc @ [(d, n)]) rest"
      using None p by simp
    with Cons.IH [OF sv] eq show ?thesis by simp
  next
    case (Some m)
    then have mem: "(d, m) \<in> set acc" by (rule map_of_SomeD)
    show ?thesis
    proof (cases "m = n")
      case True
      with mem p have eq: "set acc \<union> set (p # rest) = set acc \<union> set rest" by auto
      have "add_sizes acc (p # rest) = add_sizes acc rest"
        using Some True p by simp
      with Cons.IH [OF Cons.prems] eq show ?thesis by simp
    next
      case False
      have "\<not> single_valued (set acc \<union> set (p # rest))"
      proof
        assume "single_valued (set acc \<union> set (p # rest))"
        moreover have "(d, m) \<in> set acc \<union> set (p # rest)" using mem by simp
        moreover have "(d, n) \<in> set acc \<union> set (p # rest)" using p by simp
        ultimately have "m = n" by (rule single_valuedD)
        with False show False by simp
      qed
      moreover have "add_sizes acc (p # rest) = Inl ValueError"
        using Some False p by simp
      ultimately show ?thesis by simp
    qed
  qed
qed

lemma calculate_dimensions_iff:
  "(\<exists>D. calculate_dimensions ds = Inr D) \<longleftrightarrow> single_valued (set (concat (var_sizes ds)))"
  using add_sizes_Inr_iff [of "[]" "concat (var_sizes ds)"]
  by (simp add: calculate_dimensions_def)

lemma zip_as_map:
  "length xs = length ys \<Longrightarrow> \<forall>(x, y) \<in> set (zip xs ys). y = g x \<Longrightarrow>
     zip xs ys = map (\<lambda>x. (x, g x)) xs"
  by (induction xs ys rule: list_induct2) auto

lemma sizes_as_map:
  assumes "distinct (dims da)"
  shows "map (\<lambda>d. (d, size_of da d)) (dims da) = sizes da"
proof -
  have "map (\<lambda>p. (fst p, size_of da (fst p))) (sizes da) = sizes da"
  proof (rule map_idI)
    fix p assume "p \<in> set (sizes da)"
    then have "map_of (sizes da) (fst p) = Some (snd p)"
      using assms by (simp add: dims_def)
    then show "(fst p, size_of da (fst p)) = p"
      by (simp add: size_of_def)
  qed
  then show ?thesis by (simp add: dims_def comp_def)
qed

lemma apply_ufunc_sizes:
  assumes "apply_ufunc f da cd cd = Inr out"
  shows "set cd \<subseteq> set (dims da)"
    and "sizes out = map (\<lambda>d. (d, size_of da d)) (filter (\<lambda>d. d \<notin> set cd) (dims da) @ cd)"
proof -
  let ?order = "filter (\<lambda>d. d \<notin> set cd) (dims da) @ cd"
  from assms show sub: "set cd \<subseteq> set (dims da)"
    by (auto simp: apply_ufunc_def list_ex_iff split: if_splits)
  from assms obtain res where
    res: "f (to_ndarray da ?order) = Inr res"
    and len: "length ?order = length (shape res)"
    and out: "sizes out = zip ?order (shape res)"
    and same: "\<not> size_changed da (zip ?order (shape res))"
    by (auto simp: apply_ufunc_def from_ndarray_def Let_def split: if_splits sum.splits)
  have ord: "set ?order \<subseteq> set (dims da)" using sub by auto
  have "\<forall>(d, n) \<in> set (zip ?order (shape res)). d \<in> set (dims da)"
  proof (clarify)
    fix d n assume "(d, n) \<in> set (zip ?order (shape res))"
    then have "d \<in> set ?order" by (rule set_zip_leftD)
    with ord show "d \<in> set (dims da)" by blast
  qed
  with same have "\<forall>(d, n) \<in> set (zip ?order (shape res)). n = size_of da d"
    by (auto simp: size_changed_def list_ex_iff)
  from zip_as_map [OF len this] out
  show "sizes out = map (\<lambda>d. (d, size_of da d)) ?order" by simp
qed

lemma mset_loop_and_core:
  assumes "distinct xs" and "distinct cd" and "set cd \<subseteq> set xs"
  shows "mset (filter (\<lambda>d. d \<notin> set cd) xs @ cd) = mset xs"
proof -
  have d1: "distinct (filter (\<lambda>d. d \<in> set cd) xs)" using assms(1) by simp
  have s1: "set (filter (\<lambda>d. d \<in> set cd) xs) = set cd" using assms(3) by auto
  have "mset (filter (\<lambda>d. d \<in> set cd) xs) = mset cd"
    by (rule set_eq_iff_mset_eq_distinct [OF d1 assms(2), THEN iffD1, OF s1])
  then have "mset (filter (\<lambda>d. d \<notin> set cd) xs @ cd)
      = filter_mset (\<lambda>d. d \<notin> set cd) (mset xs) + filter_mset (\<lambda>d. d \<in> set cd) (mset xs)"
    by simp
  also have "\<dots> = mset xs"
    using multiset_partition [of "mset xs" "\<lambda>d. d \<in> set cd"] by (simp add: add.commute)
  finally show ?thesis .
qed

lemma apply_ufunc_same_sizes:
  assumes "apply_ufunc f da cd cd = Inr out" and "distinct (dims da)" and "distinct cd"
  shows "mset (sizes out) = mset (sizes da)"
proof -
  let ?g = "\<lambda>d. (d, size_of da d)"
  from apply_ufunc_sizes [OF assms(1)]
  have sub: "set cd \<subseteq> set (dims da)"
    and out: "sizes out = map ?g (filter (\<lambda>d. d \<notin> set cd) (dims da) @ cd)" by blast+
  have "mset (sizes out) = image_mset ?g (mset (filter (\<lambda>d. d \<notin> set cd) (dims da) @ cd))"
    unfolding out by (simp only: mset_map)
  also have "\<dots> = image_mset ?g (mset (dims da))"
    by (simp only: mset_loop_and_core [OF assms(2) assms(3) sub])
  also have "\<dots> = mset (map ?g (dims da))" by simp
  also have "\<dots> = mset (sizes da)" by (simp only: sizes_as_map [OF assms(2)])
  finally show ?thesis .
qed

lemma set_AList_update: "set (AList.update k v al) \<subseteq> insert (k, v) (set al)"
  by (induction al) auto

lemma assign_same_sizes:
  assumes "calculate_dimensions ds = Inr D"
    and "map_of (data_vars ds) name = Some da"
    and "set (sizes v) \<subseteq> set (sizes da)"
    and "k \<noteq> ''time''"
  shows "assign ds k v = Inr (ds\<lparr>data_vars := AList.update k v (data_vars ds)\<rparr>)"
proof -
  let ?ds' = "ds\<lparr>data_vars := AList.update k v (data_vars ds)\<rparr>"
  from assms(1) have sv: "single_valued (set (concat (var_sizes ds)))"
    using calculate_dimensions_iff by blast
  from assms(2) have "(name, da) \<in> set (data_vars ds)" by (rule map_of_SomeD)
  then have da: "set (sizes da) \<subseteq> set (concat (var_sizes ds))"
    by (force simp: var_sizes_def)
  have "set (concat (var_sizes ?ds')) \<subseteq> set (concat (var_sizes ds)) \<union> set (sizes v)"
    using set_AList_update [of k v "data_vars ds"]
    by (auto simp: var_sizes_def split: option.splits tcoord.splits)
  with da assms(3) have "set (concat (var_sizes ?ds')) \<subseteq> set (concat (var_sizes ds))"
    by blast
  with sv have "single_valued (set (concat (var_sizes ?ds')))"
    by (rule single_valued_subset [rotated])
  then obtain D' where "calculate_dimensions ?ds' = Inr D'"
    using calculate_dimensions_iff by blast
  then show ?thesis using assms(4) by (simp add: assign_def)
qed

text \<open>
  C9: the clutter map that \<open>extract_clutter\<close> returns for an array of a well-formed
  sweep has the dimensions of its input, each with the same size: the other dimensions
  first, then azimuth and range. Setting it as the variable \<open>CMAP\<close> of that sweep
  does not raise.
\<close>

theorem clutter_map_keeps_dimensions:
  assumes "calculate_dimensions swp = Inr D"
    and "getattr swp ''reflectivity_hh_clut'' = Inr da"
    and "distinct (dims da)"
    and "extract_clutter l da wsize' thrsnorain' tr1' n_p' tr2' rm_nans' = Inr clmap"
  shows "mset (sizes clmap) = mset (sizes da)
         \<and> dims clmap =
             filter (\<lambda>d. d \<notin> {''azimuth'', ''range''}) (dims da) @ [''azimuth'', ''range'']
         \<and> (\<exists>swp'. assign swp ''CMAP'' clmap = Inr swp')"
proof -
  let ?cd = "[''azimuth'', ''range'']"
  from assms(4) have ap: "apply_ufunc
       (filter_gabella l
          \<lparr>wsize = wsize', thrsnorain = thrsnorain', tr1 = tr1', n_p = n_p', tr2 = tr2',
           rm_nans = rm_nans'\<rparr>) da ?cd ?cd = Inr clmap"
    by (simp add: extract_clutter_def)
  have dcd: "distinct ?cd" by simp
  have m: "mset (sizes clmap) = mset (sizes da)"
    by (rule apply_ufunc_same_sizes [OF ap assms(3) dcd])
  have "dims clmap = filter (\<lambda>d. d \<notin> set ?cd) (dims da) @ ?cd"
    unfolding dims_def [of clmap] apply_ufunc_sizes(2) [OF ap] by (simp add: comp_def)
  then have d: "dims clmap =
      filter (\<lambda>d. d \<notin> {''azimuth'', ''range''}) (dims da) @ [''azimuth'', ''range'']"
    by simp
  from assms(2) have "map_of (data_vars swp) ''reflectivity_hh_clut'' = Some da"
    by (simp add: getattr_def split: option.splits)
  moreover from m have "set (sizes clmap) \<subseteq> set (sizes da)"
    by (metis set_mset_mset subset_refl)
  ultimately have "\<exists>swp'. assign swp ''CMAP'' clmap = Inr swp'"
    using assign_same_sizes [OF assms(1), where k = "''CMAP''"] by fastforce
  with m d show ?thesis by blast
qed

text \<open>
  \<open>extract_clutter\<close> returns whenever its input has the two core dimensions and the
  filter returns an array of the shape it was given.
\<close>

lemma zip_map_same: "zip xs (map g xs) = map (\<lambda>x. (x, g x)) xs"
  by (induction xs) auto

lemma extract_clutter_returns:
  assumes "set [''azimuth'', ''range''] \<subseteq> set (dims da)"
    and "filter_gabella l
           \<lparr>wsize = wsize', thrsnorain = thrsnorain', tr1 = tr1', n_p = n_p', tr2 = tr2',
            rm_nans = rm_nans'\<rparr>
           (to_ndarray da
              (filter (\<lambda>d. d \<notin> set [''azimuth'', ''range'']) (dims da)
               @ [''azimuth'', ''range''])) = Inr res"
    and "shape res =
           shape (to_ndarray da
              (filter (\<lambda>d. d \<notin> set [''azimuth'', ''range'']) (dims da)
               @ [''azimuth'', ''range'']))"
  shows "\<exists>clmap. extract_clutter l da wsize' thrsnorain' tr1' n_p' tr2' rm_nans' = Inr clmap"
proof -
  let ?order = "filter (\<lambda>d. d \<notin> set [''azimuth'', ''range'']) (dims da)
                @ [''azimuth'', ''range'']"
  from assms(3) have sh: "shape res = map (size_of da) ?order"
    by (simp add: to_ndarray_def)
  have "\<not> size_changed da (zip ?order (shape res))"
    unfolding sh zip_map_same size_changed_def list_ex_iff by auto
  moreover have "length ?order = length (shape res)" unfolding sh by simp
  moreover have "\<not> list_ex (\<lambda>d. d \<notin> set (dims da)) [''azimuth'', ''range'']"
    using assms(1) by (simp add: list_ex_iff)
  ultimately show ?thesis
    using assms(2)
    by (simp add: extract_clutter_def apply_ufunc_def from_ndarray_def Let_def)
qed

lemma example_dimensions:
  "calculate_dimensions (example_sweep 100) = Inr [(''azimuth'', 2), (''range'', 2)]"
  by (simp add: calculate_dimensions_def var_sizes_def example_sweep_def example_var_def
      example_reflectivity_def example_rhohv_def)

lemma example_getattr_reflectivity:
  "getattr (example_sweep 100) ''reflectivity_hh_clut'' = Inr example_reflectivity"
  by (simp add: getattr_def example_sweep_def)

lemma example_distinct_dims: "distinct (dims example_reflectivity)"
  by (simp add: dims_def example_reflectivity_def example_var_def)

lemma example_extract_clutter:
  "\<exists>clmap. extract_clutter example_lib example_reflectivity 5 0.0 21.0 23 1.3 False = Inr clmap"
  by (simp add: extract_clutter_def apply_ufunc_def example_lib_def example_gabella_def
      example_reflectivity_def example_var_def dims_def to_ndarray_def from_ndarray_def
      size_changed_def size_of_def)

theorem clutter_map_keeps_dimensions_witness:
  "\<exists>clmap. extract_clutter example_lib example_reflectivity 5 0.0 21.0 23 1.3 False = Inr clmap
     \<and> calculate_dimensions (example_sweep 100) = Inr [(''azimuth'', 2), (''range'', 2)]
     \<and> getattr (example_sweep 100) ''reflectivity_hh_clut'' = Inr example_reflectivity
     \<and> distinct (dims example_reflectivity)
     \<and> mset (sizes clmap) = mset (sizes example_reflectivity)
     \<and> dims clmap = [''azimuth'', ''range'']
     \<and> (\<exists>swp'. assign (example_sweep 100) ''CMAP'' clmap = Inr swp')"
proof -
  from example_extract_clutter obtain clmap where
    h: "extract_clutter example_lib example_reflectivity 5 0.0 21.0 23 1.3 False = Inr clmap"
    by blast
  have "filter (\<lambda>d. d \<notin> {''azimuth'', ''range''}) (dims example_reflectivity) = []"
    by (simp add: dims_def example_reflectivity_def example_var_def)
  with clutter_map_keeps_dimensions
    [OF example_dimensions example_getattr_reflectivity example_distinct_dims h]
  have "mset (sizes clmap) = mset (sizes example_reflectivity)
     \<and> dims clmap = [''azimuth'', ''range'']
     \<and> (\<exists>swp'. assign (example_sweep 100) ''CMAP'' clmap = Inr swp')" by simp
  with h example_dimensions example_getattr_reflectivity example_distinct_dims
  show ?thesis by blast
qed

section \<open>The quality index keeps the gates that pass all three tests\<close>

lemma map_of_mapM_values:
  assumes "mapM (\<lambda>(name, v). case g v of Inl e \<Rightarrow> Inl e | Inr w \<Rightarrow> Inr (name, w)) al = Inr al'"
    and "map_of al' k = Some w"
  shows "\<exists>v. map_of al k = Some v \<and> g v = Inr w"
  using assms
proof (induction al arbitrary: al')
  case Nil
  then show ?case by simp
next
  case (Cons p al)
  obtain n v where p: "p = (n, v)" by (cases p)
  from Cons.prems(1) p obtain w' rest where
    gv: "g v = Inr w'" and rest: "mapM (\<lambda>(name, v). case g v of Inl e \<Rightarrow> Inl e | Inr w \<Rightarrow> Inr (name, w)) al = Inr rest"
    and al': "al' = (n, w') # rest"
    by (auto split: sum.splits)
  show ?case
  proof (cases "k = n")
    case True
    with Cons.prems(2) al' gv p show ?thesis by simp
  next
    case False
    with Cons.prems(2) al' have "map_of rest k = Some w" by simp
    from Cons.IH [OF rest this] False p show ?thesis by simp
  qed
qed

lemma ds_where_getattr:
  assumes "ds_where ds cond = Inr masked" and "getattr masked name = Inr out"
  shows "\<exists>v. getattr ds name = Inr v \<and> da_where v cond = Inr out"
proof -
  from assms(1) obtain vars where
    vars: "mapM (\<lambda>(name, v). case da_where v cond of Inl e \<Rightarrow> Inl e | Inr w \<Rightarrow> Inr (name, w))
             (data_vars ds) = Inr vars"
    and masked: "masked = ds\<lparr>data_vars := vars\<rparr>"
    by (auto simp: ds_where_def split: sum.splits)
  from assms(2) masked have "map_of vars name = Some out"
    by (simp add: getattr_def split: option.splits)
  from map_of_mapM_values [OF vars this] show ?thesis
    by (auto simp: getattr_def)
qed

lemma da_where_value:
  "da_where v cond = Inr out \<Longrightarrow>
     value_at out ix = (if value_at cond ix then value_at v ix else Float NaN)"
  by (auto simp: da_where_def split: sum.splits)

lemma da_and_value:
  "da_and a b = Inr c \<Longrightarrow> value_at c ix = (value_at a ix \<and> value_at b ix)"
  by (auto simp: da_and_def split: sum.splits)

lemma da_compare_value: "value_at (da_compare p da) ix = p (to_float (value_at da ix))"
  by (simp add: da_compare_def)

lemma quality_mask_value:
  assumes "quality_mask swpx = Inr m"
  shows "\<exists>cbb cmap rhohv.
           getattr swpx ''CBB'' = Inr cbb \<and> getattr swpx ''CMAP'' = Inr cmap
           \<and> getattr swpx ''uncorrected_cross_correlation_ratio'' = Inr rhohv
           \<and> (\<forall>ix. value_at m ix =
                 (fle (to_float (value_at cbb ix)) (Fin 0.5)
                  \<and> flt (to_float (value_at cmap ix)) (Fin 1.0)
                  \<and> fle (Fin 0.8) (to_float (value_at rhohv ix))))"
proof -
  from assms obtain cbb cmap m1 rhohv where
    g: "getattr swpx ''CBB'' = Inr cbb" "getattr swpx ''CMAP'' = Inr cmap"
       "getattr swpx ''uncorrected_cross_correlation_ratio'' = Inr rhohv"
    and m1: "da_and (da_compare (\<lambda>x. fle x (Fin 0.5)) cbb) (da_compare (\<lambda>x. flt x (Fin 1.0)) cmap) = Inr m1"
    and m: "da_and m1 (da_compare (\<lambda>x. fle (Fin 0.8) x) rhohv) = Inr m"
    unfolding quality_mask_def by (auto split: sum.splits)
  have "\<forall>ix. value_at m ix =
          (fle (to_float (value_at cbb ix)) (Fin 0.5)
           \<and> flt (to_float (value_at cmap ix)) (Fin 1.0)
           \<and> fle (Fin 0.8) (to_float (value_at rhohv ix)))"
    by (simp add: da_and_value [OF m] da_and_value [OF m1] da_compare_value)
  with g show ?thesis by blast
qed

text \<open>
  C10: in the array the quality-index step plots, a gate keeps its reflectivity exactly
  when its cumulative beam blockage is at most 0.5, its clutter map is below 1.0 and its
  cross-correlation ratio is at least 0.8; every other gate is not-a-number.
\<close>

theorem quality_index_masks_gates:
  assumes "quality_index swpx = Inr out"
  shows "\<exists>cbb cmap rhohv reflectivity.
           getattr swpx ''CBB'' = Inr cbb \<and> getattr swpx ''CMAP'' = Inr cmap
           \<and> getattr swpx ''uncorrected_cross_correlation_ratio'' = Inr rhohv
           \<and> getattr swpx ''reflectivity_hh_clut'' = Inr reflectivity
           \<and> (\<forall>ix. value_at out ix =
                 (if fle (to_float (value_at cbb ix)) (Fin 0.5)
                     \<and> flt (to_float (value_at cmap ix)) (Fin 1.0)
                     \<and> fle (Fin 0.8) (to_float (value_at rhohv ix))
                  then value_at reflectivity ix else Float NaN))"
proof -
  from assms obtain m masked where m: "quality_mask swpx = Inr m"
    and w: "ds_where swpx m = Inr masked"
    and out: "getattr masked ''reflectivity_hh_clut'' = Inr out"
    unfolding quality_index_def by (auto split: sum.splits)
  from ds_where_getattr [OF w out] obtain reflectivity where
    r: "getattr swpx ''reflectivity_hh_clut'' = Inr reflectivity"
    and o: "da_where reflectivity m = Inr out"
    by blast
  from quality_mask_value [OF m] obtain cbb cmap rhohv where
    g: "getattr swpx ''CBB'' = Inr cbb" "getattr swpx ''CMAP'' = Inr cmap"
       "getattr swpx ''uncorrected_cross_correlation_ratio'' = Inr rhohv"
    and mv: "\<forall>ix. value_at m ix =
          (fle (to_float (value_at cbb ix)) (Fin 0.5)
           \<and> flt (to_float (value_at cmap ix)) (Fin 1.0)
           \<and> fle (Fin 0.8) (to_float (value_at rhohv ix)))"
    by blast
  have "\<forall>ix. value_at out ix =
                 (if fle (to_float (value_at cbb ix)) (Fin 0.5)
                     \<and> flt (to_float (value_at cmap ix)) (Fin 1.0)
                     \<and> fle (Fin 0.8) (to_float (value_at rhohv ix))
                  then value_at reflectivity ix else Float NaN)"
    using mv by (simp add: da_where_value [OF o])
  with g r show ?thesis by blast
qed

text \<open>
  The step returns for every well-formed sweep that has the four variables: within one
  dataset no two arrays disagree on the size of a dimension.
\<close>

lemma add_sizes_set: "add_sizes acc xs = Inr r \<Longrightarrow> set r = set acc \<union> set xs"
proof (induction xs arbitrary: acc)
  case Nil
  then show ?case by simp
next
  case (Cons p rest)
  obtain d n where p: "p = (d, n)" by (cases p)
  show ?case
  proof (cases "map_of acc d")
    case None
    with Cons.prems p have "add_sizes (acc @ [(d, n)]) rest = Inr r" by simp
    from Cons.IH [OF this] p show ?thesis by auto
  next
    case (Some m)
    with Cons.prems p have mn: "m = n" and r: "add_sizes acc rest = Inr r"
      by (auto split: if_splits)
    from Some mn have "(d, n) \<in> set acc" by (auto dest: map_of_SomeD)
    with Cons.IH [OF r] p show ?thesis by auto
  qed
qed

lemma add_sizes_within:
  assumes "single_valued S" and "set a \<subseteq> S" and "set b \<subseteq> S"
  shows "\<exists>r. add_sizes a b = Inr r \<and> set r \<subseteq> S"
proof -
  from assms have "single_valued (set a)" "single_valued (set a \<union> set b)"
    by (auto intro: single_valued_subset)
  with add_sizes_Inr_iff [of a b] obtain r where r: "add_sizes a b = Inr r" by blast
  from add_sizes_set [OF r] assms(2,3) have "set r \<subseteq> S" by simp
  with r show ?thesis by blast
qed

lemma mapM_values_keys:
  "mapM (\<lambda>(name, v). case g v of Inl e \<Rightarrow> Inl e | Inr w \<Rightarrow> Inr (name, w)) al = Inr al'
     \<Longrightarrow> map fst al' = map fst al"
proof (induction al arbitrary: al')
  case Nil
  then show ?case by simp
next
  case (Cons p al)
  obtain n v where p: "p = (n, v)" by (cases p)
  from Cons.prems p obtain w' rest where
    rest: "mapM (\<lambda>(name, v). case g v of Inl e \<Rightarrow> Inl e | Inr w \<Rightarrow> Inr (name, w)) al = Inr rest"
    and al': "al' = (n, w') # rest"
    by (auto split: sum.splits)
  from Cons.IH [OF rest] al' p show ?case by simp
qed

lemma getattr_sizes_within:
  assumes "getattr ds name = Inr v"
  shows "set (sizes v) \<subseteq> set (concat (var_sizes ds))"
proof -
  from assms have "(name, v) \<in> set (data_vars ds)"
    by (auto simp: getattr_def split: option.splits dest: map_of_SomeD)
  then show ?thesis by (force simp: var_sizes_def)
qed

lemma quality_index_returns:
  assumes "calculate_dimensions swpx = Inr D"
    and "getattr swpx ''CBB'' = Inr cbb"
    and "getattr swpx ''CMAP'' = Inr cmap"
    and "getattr swpx ''uncorrected_cross_correlation_ratio'' = Inr rhohv"
    and "getattr swpx ''reflectivity_hh_clut'' = Inr reflectivity"
  shows "\<exists>out. quality_index swpx = Inr out"
proof -
  let ?S = "set (concat (var_sizes swpx))"
  from assms(1) have sv: "single_valued ?S" using calculate_dimensions_iff by blast
  note within = getattr_sizes_within
  from add_sizes_within [OF sv within [OF assms(2)] within [OF assms(3)]]
  obtain r1 where r1: "add_sizes (sizes cbb) (sizes cmap) = Inr r1" "set r1 \<subseteq> ?S" by blast
  from add_sizes_within [OF sv r1(2) within [OF assms(4)]]
  obtain r2 where r2: "add_sizes r1 (sizes rhohv) = Inr r2" "set r2 \<subseteq> ?S" by blast
  from r1 r2 assms(2-4) obtain m where m: "quality_mask swpx = Inr m" and sm: "sizes m = r2"
    by (simp add: quality_mask_def da_and_def da_compare_def)
  let ?w = "\<lambda>(name, v). case da_where v m of Inl e \<Rightarrow> Inl e | Inr w \<Rightarrow> Inr (name, w)"
  have "\<forall>p\<in>set (data_vars swpx). \<exists>y. ?w p = Inr y"
  proof
    fix p assume p: "p \<in> set (data_vars swpx)"
    obtain n v where nv: "p = (n, v)" by (cases p)
    with p have "set (sizes v) \<subseteq> ?S" by (force simp: var_sizes_def)
    from add_sizes_within [OF sv this] r2(2) sm
    obtain r where "add_sizes (sizes v) (sizes m) = Inr r" by blast
    with nv show "\<exists>y. ?w p = Inr y" by (simp add: da_where_def)
  qed
  from mapM_total [OF this] obtain vars where vars: "mapM ?w (data_vars swpx) = Inr vars"
    by blast
  then have w: "ds_where swpx m = Inr (swpx\<lparr>data_vars := vars\<rparr>)"
    by (simp add: ds_where_def)
  from mapM_values_keys [OF vars] have "map fst vars = map fst (data_vars swpx)" .
  moreover from assms(5) have "''reflectivity_hh_clut'' \<in> fst ` set (data_vars swpx)"
    by (auto simp: getattr_def split: option.splits dest: map_of_SomeD intro: rev_image_eqI)
  ultimately have "''reflectivity_hh_clut'' \<in> fst ` set vars"
    by (metis list.set_map)
  then obtain out where "map_of vars ''reflectivity_hh_clut'' = Some out"
    by (metis map_of_eq_None_iff not_Some_eq)
  with m w show ?thesis
    by (simp add: quality_index_def getattr_def)
qed

lemma example_swpx_vars:
  "getattr example_swpx ''CBB'' = Inr example_cbb"
  "getattr example_swpx ''CMAP'' = Inr example_cmap"
  "getattr example_swpx ''uncorrected_cross_correlation_ratio'' = Inr example_rhohv"
  "getattr example_swpx ''reflectivity_hh_clut'' = Inr example_reflectivity"
  by (simp_all add: getattr_def example_swpx_def example_sweep_def)

lemma example_quality_index: "\<exists>out. quality_index example_swpx = Inr out"
  by (simp add: quality_index_def quality_mask_def example_swpx_vars da_and_def da_compare_def
      ds_where_def da_where_def getattr_def example_swpx_def example_sweep_def
      example_cbb_def example_cmap_def example_rhohv_def example_reflectivity_def
      example_var_def)

theorem quality_index_masks_gates_witness:
  "\<exists>out. quality_index example_swpx = Inr out
     \<and> map (value_at out)
         [(\<lambda>_. 0), (\<lambda>_. 0)(''range'' := 1), (\<lambda>_. 0)(''azimuth'' := 1), (\<lambda>_. 1)]
       = [Float (Fin 0), Float NaN, Float NaN, Float NaN]"
proof -
  from example_quality_index obtain out where h: "quality_index example_swpx = Inr out"
    by blast
  from quality_index_masks_gates [OF h]
  have "\<forall>ix. value_at out ix =
          (if fle (to_float (value_at example_cbb ix)) (Fin 0.5)
              \<and> flt (to_float (value_at example_cmap ix)) (Fin 1.0)
              \<and> fle (Fin 0.8) (to_float (value_at example_rhohv ix))
           then value_at example_reflectivity ix else Float NaN)"
    by (simp add: example_swpx_vars)
  then have "map (value_at out)
         [(\<lambda>_. 0), (\<lambda>_. 0)(''range'' := 1), (\<lambda>_. 0)(''azimuth'' := 1), (\<lambda>_. 1)]
       = [Float (Fin 0), Float NaN, Float NaN, Float NaN]"
    by (simp add: example_cbb_def example_cmap_def example_rhohv_def example_reflectivity_def
        example_var_def)
  with h show ?thesis by (intro exI [of _ out] conjI)
qed

section \<open>What the notebook changes and what it leaves alone\<close>

lemma example_sweeps_differ: "example_sweep 200 \<noteq> example_sweep 100"
proof
  assume "example_sweep 200 = example_sweep 100"
  then have "time_min (example_sweep 200) = time_min (example_sweep 100)" by simp
  then show False by (simp add: example_time_min)
qed

lemma example_make_volume:
  "make_volume [example_sweep 200, example_sweep 100] = Inr [example_sweep 100, example_sweep 200]"
  by (simp add: make_volume_def extend_def RadarVolume_new_def sort_with_key_def
      example_time_min)

text \<open>
  C4, as stated, fails: the notebook's own code builds a radar volume and changes it.
  After \<open>extend\<close> the volume is no longer the empty one it was made as, and the sort
  leaves it in another order than before.
\<close>

theorem volume_is_modified:
  "extend RadarVolume_new [example_sweep 200, example_sweep 100] \<noteq> RadarVolume_new
   \<and> make_volume [example_sweep 200, example_sweep 100]
       = Inr [example_sweep 100, example_sweep 200]
   \<and> [example_sweep 100, example_sweep 200]
       \<noteq> extend RadarVolume_new [example_sweep 200, example_sweep 100]"
  using example_sweeps_differ
  by (simp add: example_make_volume extend_def RadarVolume_new_def)

text \<open>Setting a data variable leaves the time coordinate and the other variables.\<close>

lemma map_of_AList_update:
  "map_of (AList.update k v al) = (map_of al)(k \<mapsto> v)"
  by (rule AList.update_conv')

lemma assign_frame:
  assumes "assign ds name v = Inr ds'" and "name \<noteq> ''time''"
  shows "time ds' = time ds" and "getattr ds' name = Inr v"
    and "\<forall>k. k \<noteq> name \<longrightarrow> getattr ds' k = getattr ds k"
proof -
  from assms have ds': "ds' = ds\<lparr>data_vars := AList.update name v (data_vars ds)\<rparr>"
    by (auto simp: assign_def Let_def split: sum.splits)
  show "time ds' = time ds" by (simp add: ds')
  show "getattr ds' name = Inr v" by (simp add: ds' getattr_def map_of_AList_update)
  show "\<forall>k. k \<noteq> name \<longrightarrow> getattr ds' k = getattr ds k"
    by (simp add: ds' getattr_def map_of_AList_update)
qed

lemma calculate_clutter_map_frame:
  assumes "calculate_clutter_map l vol = Inr swp'"
  shows "\<exists>swp clmap. getitem vol sweep_number = Inr swp \<and> clutter_map l swp = Inr clmap
           \<and> time swp' = time swp \<and> getattr swp' ''CMAP'' = Inr clmap
           \<and> (\<forall>k. k \<noteq> ''CMAP'' \<longrightarrow> getattr swp' k = getattr swp k)"
proof -
  from assms obtain swp clmap where
    swp: "getitem vol sweep_number = Inr swp" and clmap: "clutter_map l swp = Inr clmap"
    and a: "assign swp ''CMAP'' clmap = Inr swp'"
    by (auto simp: calculate_clutter_map_def split: sum.splits)
  have "''CMAP'' \<noteq> ''time''" by simp
  from assign_frame [OF a this] swp clmap show ?thesis by blast
qed

lemma assign_cbb_frame:
  assumes "assign_cbb l swpx CBB = Inr out"
  shows "\<exists>v swpx'. from_ndarray [''azimuth'', ''range''] CBB = Inr v
           \<and> georeference_dataset l swpx' = Inr out
           \<and> time swpx' = time swpx \<and> getattr swpx' ''CBB'' = Inr v
           \<and> (\<forall>k. k \<noteq> ''CBB'' \<longrightarrow> getattr swpx' k = getattr swpx k)"
proof -
  from assms obtain v swpx' where
    v: "from_ndarray [''azimuth'', ''range''] CBB = Inr v"
    and a: "assign swpx ''CBB'' v = Inr swpx'"
    and g: "georeference_dataset l swpx' = Inr out"
    by (auto simp: assign_cbb_def split: sum.splits)
  have "''CBB'' \<noteq> ''time''" by simp
  from assign_frame [OF a this] v g show ?thesis by blast
qed

text \<open>The array of elevations holds what the library read, value by value.\<close>

lemma from_ndarray_value:
  "from_ndarray ds a = Inr d \<Longrightarrow>
     sizes d = zip ds (shape a) \<and> value_at d = (\<lambda>ix. item a (map ix ds))"
  by (auto simp: from_ndarray_def split: if_splits)

lemma take_last_item: "take_last a k = Inr b \<Longrightarrow> item b pos = item a (pos @ [k])"
  by (auto simp: take_last_def split: list.splits if_splits)

lemma make_elev_values:
  assumes "make_elev l dem = Inr e"
  shows "\<exists>elevation cs lat lon.
           read_gdal_values l dem = Inr elevation \<and> read_gdal_coordinates l dem = Inr cs
           \<and> sizes (data e) = zip [''y'', ''x''] (shape elevation)
           \<and> (\<forall>ix. value_at (data e) ix = item elevation [ix ''y'', ix ''x''])
           \<and> coords e = [(''lat'', lat), (''lon'', lon)]
           \<and> (\<forall>ix. value_at lat ix = item cs [ix ''y'', ix ''x'', 1])
           \<and> (\<forall>ix. value_at lon ix = item cs [ix ''y'', ix ''x'', 0])"
proof -
  from assms obtain elevation cs a1 a0 where
    el: "read_gdal_values l dem = Inr elevation" and cs: "read_gdal_coordinates l dem = Inr cs"
    and a1: "take_last cs 1 = Inr a1" and a0: "take_last cs 0 = Inr a0"
    and new: "new_DataArray elevation [''y'', ''x'']
                [(''lat'', [''y'', ''x''], a1), (''lon'', [''y'', ''x''], a0)] = Inr e"
    by (auto simp: make_elev_def split: sum.splits)
  from new obtain d lat lon where
    d: "from_ndarray [''y'', ''x''] elevation = Inr d"
    and lat: "from_ndarray [''y'', ''x''] a1 = Inr lat"
    and lon: "from_ndarray [''y'', ''x''] a0 = Inr lon"
    and e: "e = \<lparr>data = d, coords = [(''lat'', lat), (''lon'', lon)]\<rparr>"
    by (auto simp: new_DataArray_def split: sum.splits if_splits)
  from from_ndarray_value [OF d] have
    "sizes (data e) = zip [''y'', ''x''] (shape elevation)"
    "\<forall>ix. value_at (data e) ix = item elevation [ix ''y'', ix ''x'']"
    by (simp_all add: e)
  moreover from from_ndarray_value [OF lat] take_last_item [OF a1]
  have "\<forall>ix. value_at lat ix = item cs [ix ''y'', ix ''x'', 1]" by simp
  moreover from from_ndarray_value [OF lon] take_last_item [OF a0]
  have "\<forall>ix. value_at lon ix = item cs [ix ''y'', ix ''x'', 0]" by simp
  moreover have "coords e = [(''lat'', lat), (''lon'', lon)]" by (simp add: e)
  ultimately show ?thesis using el cs by blast
qed

text \<open>A slice of the first two axes is a window of the array.\<close>

lemma slice_clamp_le: "slice_clamp n i \<le> n"
  by (simp add: slice_clamp_def)

lemma slice2_window:
  assumes "slice2 a s1 e1 s0 e0 = Inr b"
  shows "\<exists>r0 c0. length (shape b) = length (shape a) \<and> drop 2 (shape b) = drop 2 (shape a)
           \<and> r0 + shape b ! 0 \<le> shape a ! 0 \<and> c0 + shape b ! 1 \<le> shape a ! 1
           \<and> (\<forall>i j others. item b (i # j # others) = item a ((r0 + i) # (c0 + j) # others))"
proof -
  from assms obtain n1 n0 rest where sh: "shape a = n1 # n0 # rest"
    by (auto simp: slice2_def split: list.splits)
  let ?r0 = "slice_clamp n1 s1" and ?c0 = "slice_clamp n0 s0"
  from assms sh have b: "b = \<lparr>shape = (slice_clamp n1 e1 - ?r0) # (slice_clamp n0 e0 - ?c0) # rest,
               item = \<lambda>pos. case pos of
                        i # j # others \<Rightarrow> item a ((?r0 + i) # (?c0 + j) # others)
                      | _ \<Rightarrow> item a pos\<rparr>"
    by (simp add: slice2_def)
  have "?r0 + (slice_clamp n1 e1 - ?r0) \<le> n1"
    using slice_clamp_le [of n1 s1] slice_clamp_le [of n1 e1] by linarith
  moreover have "?c0 + (slice_clamp n0 e0 - ?c0) \<le> n0"
    using slice_clamp_le [of n0 s0] slice_clamp_le [of n0 e0] by linarith
  ultimately have "length (shape b) = length (shape a) \<and> drop 2 (shape b) = drop 2 (shape a)
           \<and> ?r0 + shape b ! 0 \<le> shape a ! 0 \<and> ?c0 + shape b ! 1 \<le> shape a ! 1
           \<and> (\<forall>i j others. item b (i # j # others) = item a ((?r0 + i) # (?c0 + j) # others))"
    by (simp add: b sh)
  then show ?thesis by blast
qed

lemma clip_raster_slices:
  assumes "clip_raster l dem extent = Inr (rv', rc', proj)"
  shows "\<exists>rv rc i1 i3 i0 i2.
           extract_raster_dataset l dem (- 32768.0) = Inr (rv, rc, proj)
           \<and> slice2 rv i1 i3 i0 i2 = Inr rv' \<and> slice2 rc i1 i3 i0 i2 = Inr rc'"
  using assms
  by (auto simp: clip_raster_def split: sum.splits prod.splits)

text \<open>
  C4, amended: the notebook builds and changes a volume of its own, and builds new
  datasets and arrays; the library's sweeps and elevation grid are left as they were
  read. Building the volume only reorders the opened sweeps. The cell that sets \<open>CMAP\<close>
  starts from a sweep of the volume and gives a dataset with the time coordinate and
  every other variable of that sweep; the cell that sets \<open>CBB\<close> hands such a dataset
  to the georeferencing. The array \<open>elev\<close> holds the elevations and the coordinates
  that the library read, value by value, and the clipped raster values and coordinates
  are windows of the arrays that the library extracted.
\<close>

theorem library_data_left_unchanged:
  "(make_volume ds = Inr vol \<longrightarrow> mset vol = mset ds)
   \<and> (calculate_clutter_map l vol = Inr swp' \<longrightarrow>
        (\<exists>swp clmap. getitem vol sweep_number = Inr swp \<and> clutter_map l swp = Inr clmap
           \<and> time swp' = time swp \<and> getattr swp' ''CMAP'' = Inr clmap
           \<and> (\<forall>k. k \<noteq> ''CMAP'' \<longrightarrow> getattr swp' k = getattr swp k)))
   \<and> (assign_cbb l swpx CBB = Inr out \<longrightarrow>
        (\<exists>v swpx'. from_ndarray [''azimuth'', ''range''] CBB = Inr v
           \<and> georeference_dataset l swpx' = Inr out
           \<and> time swpx' = time swpx \<and> getattr swpx' ''CBB'' = Inr v
           \<and> (\<forall>k. k \<noteq> ''CBB'' \<longrightarrow> getattr swpx' k = getattr swpx k)))
   \<and> (make_elev l dem = Inr e \<longrightarrow>
        (\<exists>elevation cs lat lon.
           read_gdal_values l dem = Inr elevation \<and> read_gdal_coordinates l dem = Inr cs
           \<and> sizes (data e) = zip [''y'', ''x''] (shape elevation)
           \<and> (\<forall>ix. value_at (data e) ix = item elevation [ix ''y'', ix ''x''])
           \<and> coords e = [(''lat'', lat), (''lon'', lon)]
           \<and> (\<forall>ix. value_at lat ix = item cs [ix ''y'', ix ''x'', 1])
           \<and> (\<forall>ix. value_at lon ix = item cs [ix ''y'', ix ''x'', 0])))
   \<and> (clip_raster l dem extent = Inr (rv', rc', proj) \<longrightarrow>
        (\<exists>rv rc. extract_raster_dataset l dem (- 32768.0) = Inr (rv, rc, proj)
           \<and> (\<exists>r0 c0. length (shape rv') = length (shape rv)
                \<and> drop 2 (shape rv') = drop 2 (shape rv)
                \<and> r0 + shape rv' ! 0 \<le> shape rv ! 0 \<and> c0 + shape rv' ! 1 \<le> shape rv ! 1
                \<and> (\<forall>i j others.
                      item rv' (i # j # others) = item rv ((r0 + i) # (c0 + j) # others)))
           \<and> (\<exists>r0 c0. length (shape rc') = length (shape rc)
                \<and> drop 2 (shape rc') = drop 2 (shape rc)
                \<and> r0 + shape rc' ! 0 \<le> shape rc ! 0 \<and> c0 + shape rc' ! 1 \<le> shape rc ! 1
                \<and> (\<forall>i j others.
                      item rc' (i # j # others) = item rc ((r0 + i) # (c0 + j) # others)))))"
proof (intro conjI impI)
  assume "make_volume ds = Inr vol"
  then have "sort_with_key time_min ds = Inr vol"
    by (simp add: make_volume_def extend_def RadarVolume_new_def)
  then show "mset vol = mset ds" by (rule sort_with_key_mset)
next
  assume "calculate_clutter_map l vol = Inr swp'"
  then show "\<exists>swp clmap. getitem vol sweep_number = Inr swp \<and> clutter_map l swp = Inr clmap
           \<and> time swp' = time swp \<and> getattr swp' ''CMAP'' = Inr clmap
           \<and> (\<forall>k. k \<noteq> ''CMAP'' \<longrightarrow> getattr swp' k = getattr swp k)"
    by (rule calculate_clutter_map_frame)
next
  assume "assign_cbb l swpx CBB = Inr out"
  then show "\<exists>v swpx'. from_ndarray [''azimuth'', ''range''] CBB = Inr v
           \<and> georeference_dataset l swpx' = Inr out
           \<and> time swpx' = time swpx \<and> getattr swpx' ''CBB'' = Inr v
           \<and> (\<forall>k. k \<noteq> ''CBB'' \<longrightarrow> getattr swpx' k = getattr swpx k)"
    by (rule assign_cbb_frame)
next
  assume "make_elev l dem = Inr e"
  then show "\<exists>elevation cs lat lon.
           read_gdal_values l dem = Inr elevation \<and> read_gdal_coordinates l dem = Inr cs
           \<and> sizes (data e) = zip [''y'', ''x''] (shape elevation)
           \<and> (\<forall>ix. value_at (data e) ix = item elevation [ix ''y'', ix ''x''])
           \<and> coords e = [(''lat'', lat), (''lon'', lon)]
           \<and> (\<forall>ix. value_at lat ix = item cs [ix ''y'', ix ''x'', 1])
           \<and> (\<forall>ix. value_at lon ix = item cs [ix ''y'', ix ''x'', 0])"
    by (rule make_elev_values)
next
  assume "clip_raster l dem extent = Inr (rv', rc', proj)"
  from clip_raster_slices [OF this] obtain rv rc i1 i3 i0 i2 where
    ex: "extract_raster_dataset l dem (- 32768.0) = Inr (rv, rc, proj)"
    and sv: "slice2 rv i1 i3 i0 i2 = Inr rv'" and sc: "slice2 rc i1 i3 i0 i2 = Inr rc'"
    by blast
  from ex slice2_window [OF sv] slice2_window [OF sc]
  show "\<exists>rv rc. extract_raster_dataset l dem (- 32768.0) = Inr (rv, rc, proj)
           \<and> (\<exists>r0 c0. length (shape rv') = length (shape rv)
                \<and> drop 2 (shape rv') = drop 2 (shape rv)
                \<and> r0 + shape rv' ! 0 \<le> shape rv ! 0 \<and> c0 + shape rv' ! 1 \<le> shape rv ! 1
                \<and> (\<forall>i j others.
                      item rv' (i # j # others) = item rv ((r0 + i) # (c0 + j) # others)))
           \<and> (\<exists>r0 c0. length (shape rc') = length (shape rc)
                \<and> drop 2 (shape rc') = drop 2 (shape rc)
                \<and> r0 + shape rc' ! 0 \<le> shape rc ! 0 \<and> c0 + shape rc' ! 1 \<le> shape rc ! 1
                \<and> (\<forall>i j others.
                      item rc' (i # j # others) = item rc ((r0 + i) # (c0 + j) # others)))"
    by (intro exI [of _ rv] exI [of _ rc] conjI)
qed

lemma example_sweep_dimensions:
  "calculate_dimensions (example_sweep t) = Inr [(''azimuth'', 2), (''range'', 2)]"
  by (simp add: calculate_dimensions_def var_sizes_def example_sweep_def example_var_def
      example_reflectivity_def example_rhohv_def)

lemma example_sweep_reflectivity:
  "map_of (data_vars (example_sweep t)) ''reflectivity_hh_clut'' = Some example_reflectivity"
  by (simp add: example_sweep_def)

lemma example_four_sweeps:
  "make_volume (map example_sweep [4, 3, 2, 1]) = Inr (map example_sweep [1, 2, 3, 4])"
  by (simp add: make_volume_def extend_def RadarVolume_new_def sort_with_key_def
      example_time_min)

lemma example_fourth_sweep:
  "getitem [example_sweep 1, example_sweep 2, example_sweep 3, example_sweep 4] sweep_number
     = Inr (example_sweep 4)"
  by (simp add: getitem_def sweep_number_def)

lemma example_calculate_clutter_map:
  "\<exists>swp'. calculate_clutter_map example_lib (map example_sweep [1, 2, 3, 4]) = Inr swp'"
proof -
  from example_extract_clutter obtain clmap where
    c: "extract_clutter example_lib example_reflectivity 5 0.0 21.0 23 1.3 False = Inr clmap"
    by blast
  then have "apply_ufunc
       (filter_gabella example_lib
          \<lparr>wsize = 5, thrsnorain = 0.0, tr1 = 21.0, n_p = 23, tr2 = 1.3, rm_nans = False\<rparr>)
       example_reflectivity [''azimuth'', ''range''] [''azimuth'', ''range''] = Inr clmap"
    by (simp add: extract_clutter_def)
  from apply_ufunc_same_sizes [OF this example_distinct_dims]
  have "mset (sizes clmap) = mset (sizes example_reflectivity)" by simp
  then have "set (sizes clmap) \<subseteq> set (sizes example_reflectivity)"
    by (metis set_mset_mset subset_refl)
  from assign_same_sizes [OF example_sweep_dimensions example_sweep_reflectivity this]
  have "\<exists>swp'. assign (example_sweep 4) ''CMAP'' clmap = Inr swp'" by simp
  moreover have "clutter_map example_lib (example_sweep 4) = Inr clmap"
    using c by (simp add: clutter_map_def getattr_def example_sweep_reflectivity)
  ultimately show ?thesis
    by (auto simp: calculate_clutter_map_def example_fourth_sweep)
qed

lemma example_cbb_from_ndarray:
  "from_ndarray [''azimuth'', ''range''] example_cbb_array
     = Inr \<lparr>sizes = [(''azimuth'', 2), (''range'', 2)],
            value_at = \<lambda>ix. item example_cbb_array [ix ''azimuth'', ix ''range'']\<rparr>"
proof -
  have "shape example_cbb_array = [2, 2]" by (simp add: example_cbb_array_def)
  then show ?thesis by (simp add: from_ndarray_def)
qed

lemma example_assign_cbb:
  "\<exists>out. assign_cbb example_lib (example_sweep 100) example_cbb_array = Inr out"
proof -
  let ?v = "\<lparr>sizes = [(''azimuth'', 2), (''range'', 2)],
             value_at = \<lambda>ix. item example_cbb_array [ix ''azimuth'', ix ''range'']\<rparr>"
  have "set (sizes ?v) \<subseteq> set (sizes example_reflectivity)"
    by (simp add: example_reflectivity_def example_var_def)
  from assign_same_sizes [OF example_sweep_dimensions example_sweep_reflectivity this]
  have "\<exists>swpx'. assign (example_sweep 100) ''CBB'' ?v = Inr swpx'" by simp
  then show ?thesis
    by (auto simp: assign_cbb_def example_cbb_from_ndarray example_lib_def)
qed

lemma example_make_elev: "\<exists>e. make_elev example_lib 0 = Inr e"
  by (simp add: make_elev_def example_lib_def take_last_def example_coordinates_def
      example_elevation_def new_DataArray_def from_ndarray_def dims_def)

lemma example_clip_raster:
  "\<exists>rv' rc'. clip_raster example_lib 0 example_extent = Inr (rv', rc', ''EPSG:4326'')"
  by (simp add: clip_raster_def example_lib_def example_extent_def getkey_def getitem_def
      slice2_def example_coordinates_def example_elevation_def)

theorem library_data_left_unchanged_witness:
  "make_volume (map example_sweep [4, 3, 2, 1]) = Inr (map example_sweep [1, 2, 3, 4])
   \<and> mset (map example_sweep [1, 2, 3, 4]) = mset (map example_sweep [4, 3, 2, 1])
   \<and> (\<exists>swp' clmap.
        calculate_clutter_map example_lib (map example_sweep [1, 2, 3, 4]) = Inr swp'
        \<and> clutter_map example_lib (example_sweep 4) = Inr clmap
        \<and> time swp' = time (example_sweep 4) \<and> getattr swp' ''CMAP'' = Inr clmap
        \<and> (\<forall>k. k \<noteq> ''CMAP'' \<longrightarrow> getattr swp' k = getattr (example_sweep 4) k))
   \<and> (\<exists>out v. assign_cbb example_lib (example_sweep 100) example_cbb_array = Inr out
        \<and> from_ndarray [''azimuth'', ''range''] example_cbb_array = Inr v
        \<and> time out = time (example_sweep 100) \<and> getattr out ''CBB'' = Inr v
        \<and> (\<forall>k. k \<noteq> ''CBB'' \<longrightarrow> getattr out k = getattr (example_sweep 100) k))
   \<and> (\<exists>e lat lon. make_elev example_lib 0 = Inr e
        \<and> sizes (data e) = [(''y'', 3), (''x'', 3)]
        \<and> (\<forall>ix. value_at (data e) ix = item example_elevation [ix ''y'', ix ''x''])
        \<and> coords e = [(''lat'', lat), (''lon'', lon)]
        \<and> (\<forall>ix. value_at lat ix = item example_coordinates [ix ''y'', ix ''x'', 1])
        \<and> (\<forall>ix. value_at lon ix = item example_coordinates [ix ''y'', ix ''x'', 0]))
   \<and> (\<exists>rv' rc'. clip_raster example_lib 0 example_extent = Inr (rv', rc', ''EPSG:4326'')
        \<and> (\<exists>r0 c0. shape rv' ! 0 + r0 \<le> 3 \<and> shape rv' ! 1 + c0 \<le> 3
             \<and> (\<forall>i j. item rv' [i, j] = item example_elevation [r0 + i, c0 + j]))
        \<and> (\<exists>r0 c0. shape rc' ! 0 + r0 \<le> 3 \<and> shape rc' ! 1 + c0 \<le> 3
             \<and> (\<forall>i j k. item rc' [i, j, k] = item example_coordinates [r0 + i, c0 + j, k])))"
proof -
  from example_calculate_clutter_map obtain swp' where
    s: "calculate_clutter_map example_lib (map example_sweep [1, 2, 3, 4]) = Inr swp'" by blast
  from example_assign_cbb obtain out where
    o: "assign_cbb example_lib (example_sweep 100) example_cbb_array = Inr out" by blast
  from example_make_elev obtain e where e: "make_elev example_lib 0 = Inr e" by blast
  from example_clip_raster obtain rv' rc' where
    c: "clip_raster example_lib 0 example_extent = Inr (rv', rc', ''EPSG:4326'')" by blast
  note t = library_data_left_unchanged
    [where ds = "map example_sweep [4, 3, 2, 1]" and vol = "map example_sweep [1, 2, 3, 4]"
       and l = example_lib and swp' = swp' and swpx = "example_sweep 100"
       and CBB = example_cbb_array and out = out and dem = 0 and e = e
       and extent = example_extent and rv' = rv' and rc' = rc' and proj = "''EPSG:4326''"]
  from t example_four_sweeps
  have 1: "mset (map example_sweep [1, 2, 3, 4]) = mset (map example_sweep [4, 3, 2, 1])"
    by blast
  from t s have "\<exists>swp clmap. getitem (map example_sweep [1, 2, 3, 4]) sweep_number = Inr swp
           \<and> clutter_map example_lib swp = Inr clmap
           \<and> time swp' = time swp \<and> getattr swp' ''CMAP'' = Inr clmap
           \<and> (\<forall>k. k \<noteq> ''CMAP'' \<longrightarrow> getattr swp' k = getattr swp k)"
    by blast
  then have "\<exists>clmap. clutter_map example_lib (example_sweep 4) = Inr clmap
        \<and> time swp' = time (example_sweep 4) \<and> getattr swp' ''CMAP'' = Inr clmap
        \<and> (\<forall>k. k \<noteq> ''CMAP'' \<longrightarrow> getattr swp' k = getattr (example_sweep 4) k)"
    by (simp add: example_fourth_sweep)
  with s have 2: "\<exists>swp' clmap.
        calculate_clutter_map example_lib (map example_sweep [1, 2, 3, 4]) = Inr swp'
        \<and> clutter_map example_lib (example_sweep 4) = Inr clmap
        \<and> time swp' = time (example_sweep 4) \<and> getattr swp' ''CMAP'' = Inr clmap
        \<and> (\<forall>k. k \<noteq> ''CMAP'' \<longrightarrow> getattr swp' k = getattr (example_sweep 4) k)"
    by blast
  from t o have "\<exists>v swpx'. from_ndarray [''azimuth'', ''range''] example_cbb_array = Inr v
           \<and> georeference_dataset example_lib swpx' = Inr out
           \<and> time swpx' = time (example_sweep 100) \<and> getattr swpx' ''CBB'' = Inr v
           \<and> (\<forall>k. k \<noteq> ''CBB'' \<longrightarrow> getattr swpx' k = getattr (example_sweep 100) k)"
    by blast
  then have "\<exists>v. from_ndarray [''azimuth'', ''range''] example_cbb_array = Inr v
        \<and> time out = time (example_sweep 100) \<and> getattr out ''CBB'' = Inr v
        \<and> (\<forall>k. k \<noteq> ''CBB'' \<longrightarrow> getattr out k = getattr (example_sweep 100) k)"
    by (auto simp: example_lib_def)
  with o have 3: "\<exists>out v. assign_cbb example_lib (example_sweep 100) example_cbb_array = Inr out
        \<and> from_ndarray [''azimuth'', ''range''] example_cbb_array = Inr v
        \<and> time out = time (example_sweep 100) \<and> getattr out ''CBB'' = Inr v
        \<and> (\<forall>k. k \<noteq> ''CBB'' \<longrightarrow> getattr out k = getattr (example_sweep 100) k)"
    by blast
  from t e have "\<exists>elevation cs lat lon.
           read_gdal_values example_lib 0 = Inr elevation
           \<and> read_gdal_coordinates example_lib 0 = Inr cs
           \<and> sizes (data e) = zip [''y'', ''x''] (shape elevation)
           \<and> (\<forall>ix. value_at (data e) ix = item elevation [ix ''y'', ix ''x''])
           \<and> coords e = [(''lat'', lat), (''lon'', lon)]
           \<and> (\<forall>ix. value_at lat ix = item cs [ix ''y'', ix ''x'', 1])
           \<and> (\<forall>ix. value_at lon ix = item cs [ix ''y'', ix ''x'', 0])"
    by blast
  then have "\<exists>lat lon. sizes (data e) = zip [''y'', ''x''] (shape example_elevation)
        \<and> (\<forall>ix. value_at (data e) ix = item example_elevation [ix ''y'', ix ''x''])
        \<and> coords e = [(''lat'', lat), (''lon'', lon)]
        \<and> (\<forall>ix. value_at lat ix = item example_coordinates [ix ''y'', ix ''x'', 1])
        \<and> (\<forall>ix. value_at lon ix = item example_coordinates [ix ''y'', ix ''x'', 0])"
    by (simp add: example_lib_def)
  moreover have "zip [''y'', ''x''] (shape example_elevation) = [(''y'', 3), (''x'', 3)]"
    by (simp add: example_elevation_def)
  ultimately have "\<exists>lat lon. sizes (data e) = [(''y'', 3), (''x'', 3)]
        \<and> (\<forall>ix. value_at (data e) ix = item example_elevation [ix ''y'', ix ''x''])
        \<and> coords e = [(''lat'', lat), (''lon'', lon)]
        \<and> (\<forall>ix. value_at lat ix = item example_coordinates [ix ''y'', ix ''x'', 1])
        \<and> (\<forall>ix. value_at lon ix = item example_coordinates [ix ''y'', ix ''x'', 0])"
    by simp
  with e have 4: "\<exists>e lat lon. make_elev example_lib 0 = Inr e
        \<and> sizes (data e) = [(''y'', 3), (''x'', 3)]
        \<and> (\<forall>ix. value_at (data e) ix = item example_elevation [ix ''y'', ix ''x''])
        \<and> coords e = [(''lat'', lat), (''lon'', lon)]
        \<and> (\<forall>ix. value_at lat ix = item example_coordinates [ix ''y'', ix ''x'', 1])
        \<and> (\<forall>ix. value_at lon ix = item example_coordinates [ix ''y'', ix ''x'', 0])"
    by blast
  from t c have w: "\<exists>rv rc.
        extract_raster_dataset example_lib 0 (- 32768.0) = Inr (rv, rc, ''EPSG:4326'')
           \<and> (\<exists>r0 c0. length (shape rv') = length (shape rv)
                \<and> drop 2 (shape rv') = drop 2 (shape rv)
                \<and> r0 + shape rv' ! 0 \<le> shape rv ! 0 \<and> c0 + shape rv' ! 1 \<le> shape rv ! 1
                \<and> (\<forall>i j others.
                      item rv' (i # j # others) = item rv ((r0 + i) # (c0 + j) # others)))
           \<and> (\<exists>r0 c0. length (shape rc') = length (shape rc)
                \<and> drop 2 (shape rc') = drop 2 (shape rc)
                \<and> r0 + shape rc' ! 0 \<le> shape rc ! 0 \<and> c0 + shape rc' ! 1 \<le> shape rc ! 1
                \<and> (\<forall>i j others.
                      item rc' (i # j # others) = item rc ((r0 + i) # (c0 + j) # others)))"
    by blast
  have ex: "extract_raster_dataset example_lib 0 (- 32768.0)
      = Inr (example_elevation, example_coordinates, ''EPSG:4326'')"
    by (simp add: example_lib_def)
  have sh: "shape example_elevation ! 0 = 3" "shape example_elevation ! 1 = 3"
    "shape example_coordinates ! 0 = 3" "shape example_coordinates ! 1 = 3"
    by (simp_all add: example_elevation_def example_coordinates_def)
  from w ex sh obtain r0 c0 r0' c0' where
    v: "r0 + shape rv' ! 0 \<le> 3" "c0 + shape rv' ! 1 \<le> 3"
       "\<forall>i j others. item rv' (i # j # others)
          = item example_elevation ((r0 + i) # (c0 + j) # others)"
    and k: "r0' + shape rc' ! 0 \<le> 3" "c0' + shape rc' ! 1 \<le> 3"
       "\<forall>i j others. item rc' (i # j # others)
          = item example_coordinates ((r0' + i) # (c0' + j) # others)"
    by auto
  from v have "shape rv' ! 0 + r0 \<le> 3 \<and> shape rv' ! 1 + c0 \<le> 3
             \<and> (\<forall>i j. item rv' [i, j] = item example_elevation [r0 + i, c0 + j])"
    by (simp add: add.commute)
  moreover from k have "shape rc' ! 0 + r0' \<le> 3 \<and> shape rc' ! 1 + c0' \<le> 3
             \<and> (\<forall>i j k. item rc' [i, j, k] = item example_coordinates [r0' + i, c0' + j, k])"
    by (simp add: add.commute)
  ultimately have 5: "\<exists>rv' rc'.
        clip_raster example_lib 0 example_extent = Inr (rv', rc', ''EPSG:4326'')
        \<and> (\<exists>r0 c0. shape rv' ! 0 + r0 \<le> 3 \<and> shape rv' ! 1 + c0 \<le> 3
             \<and> (\<forall>i j. item rv' [i, j] = item example_elevation [r0 + i, c0 + j]))
        \<and> (\<exists>r0 c0. shape rc' ! 0 + r0 \<le> 3 \<and> shape rc' ! 1 + c0 \<le> 3
             \<and> (\<forall>i j k. item rc' [i, j, k] = item example_coordinates [r0 + i, c0 + j, k]))"
    using c by blast
  from example_four_sweeps 1 2 3 4 5 show ?thesis by (intro conjI)
qed

section \<open>The notebook reads the data of the Py-ART chapter\<close>

lemma split_on_not_Nil: "split_on c xs \<noteq> []"
  by (induction xs) (auto split: list.splits)

lemma split_on_append:
  "split_on c (a @ c # b) = split_on c a @ split_on c b"
proof (induction a)
  case Nil
  then show ?case by simp
next
  case (Cons x a)
  obtain w ws where w: "split_on c a = w # ws"
    using split_on_not_Nil [of c a] by (cases "split_on c a") auto
  with Cons show ?case by simp
qed

lemma dirname_fglob: "dirname fglob = ''../pyart/data/example_pyrad/22179/MLL22179''"
  by code_simp

lemma glob_located_under:
  assumes "plain_names listdir (dirname fglob)"
    and "f \<in> set (glob listdir fglob)"
  shows "located_under (dirname fglob) f"
proof -
  from assms(2) obtain names where names: "listdir (dirname fglob) = Some names"
    by (cases "listdir (dirname fglob)") (auto simp: glob_def)
  with assms(2) obtain n where n: "n \<in> set names" and f: "f = path_join (dirname fglob) n"
    by (auto simp: glob_def)
  from assms(1) names n have "CHR ''/'' \<notin> set n"
    by (simp add: plain_names_def list_all_iff)
  then have "\<not> (n \<noteq> [] \<and> hd n = CHR ''/'')" by (cases n) auto
  with f have "f = dirname fglob @ CHR ''/'' # n"
    by (simp add: path_join_def dirname_fglob)
  then show ?thesis
    by (simp add: located_under_def split_on_append)
qed

text \<open>
  C1, as stated, fails for this notebook: it is a section of the wradlib chapter, and
  the directory of its glob, resolved from the notebook's directory, lies under
  \<open>notebooks/pyart\<close>, the directory of the notebooks of the Py-ART chapter.
\<close>

theorem glob_reads_pyart_directory:
  "wradlib_chapter \<in> set (all_chapters book_toc)
   \<and> pyart_chapter \<in> set (all_chapters book_toc)
   \<and> chapter_file wradlib_chapter = ''wradlib/README.md''
   \<and> chapter_file pyart_chapter = ''pyart/README.md''
   \<and> wradlib_chapter \<noteq> pyart_chapter
   \<and> notebook_file \<in> set (sections wradlib_chapter)
   \<and> ''notebooks/pyart'' \<in> set (chapter_dirs pyart_chapter)
   \<and> located_under ''notebooks/pyart'' (resolve (dirname notebook_file) (dirname fglob))"
  by code_simp

lemma fglob_resolved:
  "resolve (dirname notebook_file) (dirname fglob)
     = ''notebooks/pyart/data/example_pyrad/22179/MLL22179''"
  by code_simp

lemma fglob_chapters:
  "chapters_over book_toc ''notebooks/pyart/data/example_pyrad/22179/MLL22179''
     = [''pyart/README.md'', ''notebooks/environment'']"
  by code_simp

lemma wradlib_data_resolved:
  "resolve (dirname notebook_file) wradlib_data = ''notebooks/wradlib/data/wradlib-data''"
  by code_simp

lemma wradlib_data_chapters:
  "chapters_over book_toc ''notebooks/wradlib/data/wradlib-data''
     = [''wradlib/README.md'', ''notebooks/environment'']"
  by code_simp

text \<open>
  C1, amended: the names of a directory having no slash, every file the glob matches
  lies in the glob's directory, which resolves
  to \<open>notebooks/pyart/data/example_pyrad/22179/MLL22179\<close>. Of the chapters of the
  book, that directory lies under the directories of the Py-ART chapter and of the
  chapter \<open>notebooks/environment\<close>, whose directory \<open>notebooks\<close> is over every
  notebook, and not of the notebook's own chapter. The data directory that the notebook
  sets for the elevation tiles resolves to \<open>notebooks/wradlib/data/wradlib-data\<close>,
  under the directories of its own chapter and of the chapter
  \<open>notebooks/environment\<close>.
\<close>

theorem notebook_data_locations:
  assumes "plain_names listdir (dirname fglob)"
  shows "(\<forall>f \<in> set (read_flist listdir). located_under (dirname fglob) f)
   \<and> resolve (dirname notebook_file) (dirname fglob)
       = ''notebooks/pyart/data/example_pyrad/22179/MLL22179''
   \<and> chapters_over book_toc (resolve (dirname notebook_file) (dirname fglob))
       = [''pyart/README.md'', ''notebooks/environment'']
   \<and> resolve (dirname notebook_file)
        (the (fst (download_srtm l env extent_values) ''WRADLIB_DATA''))
       = ''notebooks/wradlib/data/wradlib-data''
   \<and> chapters_over book_toc
        (resolve (dirname notebook_file)
           (the (fst (download_srtm l env extent_values) ''WRADLIB_DATA'')))
       = [''wradlib/README.md'', ''notebooks/environment'']"
proof -
  have "\<forall>f \<in> set (read_flist listdir). located_under (dirname fglob) f"
    using glob_located_under [OF assms] by (simp add: read_flist_def)
  moreover have "the (fst (download_srtm l env extent_values) ''WRADLIB_DATA'') = wradlib_data"
    by (simp add: download_srtm_def Let_def)
  ultimately show ?thesis
    by (simp only: fglob_resolved fglob_chapters wradlib_data_resolved wradlib_data_chapters
        simp_thms)
qed

lemma example_listdir_names:
  "plain_names example_listdir (dirname fglob)"
  by (simp add: plain_names_def dirname_fglob example_listdir_def)

theorem notebook_data_locations_witness:
  "plain_names example_listdir (dirname fglob)
   \<and> ''../pyart/data/example_pyrad/22179/MLL22179/MLL2217907250U.001.nc''
       \<in> set (read_flist example_listdir)
   \<and> located_under (dirname fglob)
       ''../pyart/data/example_pyrad/22179/MLL22179/MLL2217907250U.001.nc''
   \<and> chapters_over book_toc (resolve (dirname notebook_file) (dirname fglob))
       = [''pyart/README.md'', ''notebooks/environment'']
   \<and> chapters_over book_toc
        (resolve (dirname notebook_file)
           (the (fst (download_srtm example_lib Map.empty []) ''WRADLIB_DATA'')))
       = [''wradlib/README.md'', ''notebooks/environment'']"
proof -
  have m: "''../pyart/data/example_pyrad/22179/MLL22179/MLL2217907250U.001.nc''
     \<in> set (read_flist example_listdir)"
    by (simp add: example_flist)
  from notebook_data_locations [OF example_listdir_names, of example_lib Map.empty "[]"] m
    example_listdir_names
  show ?thesis by blast
qed

end
